theory Spec2Isabelle
  imports Complex_Main
begin

section \<open>The path-integral fix \<^verbatim>\<open>fix_dp_pimd.cpp\<close>: data model\<close>

text \<open>
  The C++ \<^verbatim>\<open>double\<close>s of the source are read as real numbers: every statement below is
  about the exact real-arithmetic semantics of the code, and rounding is outside the model.
  Arrays written by a counting loop are lists built over \<open>[0..<n]\<close>; two-dimensional arrays
  that are allocated uninitialised and then filled cell by cell are functions updated cell
  by cell, starting from an arbitrary initial content.
\<close>

datatype method_t = PIMD | NMPIMD | CMD
datatype fmmode_t = physical | normal
datatype integrator_t = baoab | obabo
datatype thermostat_t = SVR | PILE_L | PILE_G
datatype barostat_t = MTTK | BZP
datatype ensemble_t = nve | nvt | nph | npt

type_synonym vec3 = "real \<times> real \<times> real"

text \<open>One local atom: the entries \<^verbatim>\<open>tag[i]\<close>, \<^verbatim>\<open>type[i]\<close>, \<^verbatim>\<open>mask[i]\<close>, \<^verbatim>\<open>x[i]\<close>, \<^verbatim>\<open>v[i]\<close>,
  \<^verbatim>\<open>f[i]\<close> of the host's per-atom arrays.\<close>

record atom =
  atom_tag :: int
  atom_type :: nat
  atom_in_group :: bool
  atom_x :: vec3
  atom_v :: vec3
  atom_f :: vec3

text \<open>The members set by the constructor from the keywords of the fix command, and the
  values read from the host (\<^verbatim>\<open>universe->nworlds\<close>, \<^verbatim>\<open>update->dt\<close>, the unit constants of
  \<^verbatim>\<open>force\<close>, \<^verbatim>\<open>atom->natoms\<close>, the initial box volume).\<close>

record settings =
  np :: nat
  dt :: real
  boltz :: real
  hbar :: real
  mvv2e :: real
  ftm2v :: real
  nktv2p :: real
  temp :: real
  Lan_temp :: real
  tau :: real
  tau_p :: real
  pilescale :: real
  Pext :: real
  natoms :: nat
  vol0 :: real
  fmass :: real
  fmmode :: fmmode_t
  integrator :: integrator_t
  thermostat :: thermostat_t
  barostat :: barostat_t
  ensemble :: ensemble_t
  pimd_method :: method_t
  pextflag :: bool
  removecomflag :: bool
  mapflag :: bool

text \<open>What \<^verbatim>\<open>nmpimd_init\<close> builds: the eigenvalues \<^verbatim>\<open>lam\<close> and the two transformation
  matrices.\<close>

type_synonym matrix = "nat \<Rightarrow> nat \<Rightarrow> real"

record normal_modes =
  lam :: "real list"
  M_x2xp :: matrix
  M_xp2x :: matrix

text \<open>What \<^verbatim>\<open>Langevin_init\<close> stores: \<^verbatim>\<open>_omega_np\<close>, \<^verbatim>\<open>_omega_k\<close>, \<^verbatim>\<open>Lan_c\<close>, \<^verbatim>\<open>Lan_s\<close>,
  \<^verbatim>\<open>gamma\<close>, \<^verbatim>\<open>c1\<close>, \<^verbatim>\<open>c2\<close> and, for the two PILE thermostats only, \<^verbatim>\<open>tau_k\<close>, \<^verbatim>\<open>c1_k\<close>,
  \<^verbatim>\<open>c2_k\<close> (the empty list stands for an array that is not allocated).\<close>

record langevin =
  omega_np :: real
  omega_k :: "real list"
  Lan_c :: "real list"
  Lan_s :: "real list"
  gamma :: real
  c1 :: real
  c2 :: real
  tau_k :: "real list"
  c1_k :: "real list"
  c2_k :: "real list"

text \<open>The state of one MPI process that the barostat and the energy estimators read and
  write: the piston velocity \<^verbatim>\<open>vw\<close>, the box lengths of \<^verbatim>\<open>domain\<close>, the estimator scalars
  and the local atoms.\<close>

record proc =
  vw :: real
  xprd :: real
  yprd :: real
  zprd :: real
  p_cv :: real
  p_md :: real
  totke :: real
  pote :: real
  total_spring_energy :: real
  tote :: real
  totenthalpy :: real
  atoms :: "atom list"

text \<open>The process grid is a list of replicas (index \<^verbatim>\<open>universe->iworld\<close>), each a list of
  processes (index \<^verbatim>\<open>comm->me\<close>); the process of universe rank 0 is the first process of
  replica 0.\<close>

type_synonym grid = "proc list list"

text \<open>The three coordinates of a vector, by index.\<close>

definition coord :: "vec3 \<Rightarrow> nat \<Rightarrow> real" where
  "coord u d = (case u of (u0, u1, u2) \<Rightarrow> if d = 0 then u0 else if d = 1 then u1 else u2)"

section \<open>Constants set by \<^verbatim>\<open>init\<close>\<close>

text \<open>Both integrator branches of \<^verbatim>\<open>init\<close> set \<^verbatim>\<open>dtv = 0.5 * update->dt\<close>,
  \<^verbatim>\<open>dtf = 0.5 * update->dt * ftm2v\<close>, \<^verbatim>\<open>dtv2 = dtv * dtv\<close> and
  \<^verbatim>\<open>dtv3 = 1./3 * dtv2 * dtv * ftm2v\<close>.\<close>

definition init_dtv :: "settings \<Rightarrow> real" where
  "init_dtv S = (case integrator S of obabo \<Rightarrow> 0.5 * dt S | baoab \<Rightarrow> 0.5 * dt S)"

definition init_dtf :: "settings \<Rightarrow> real" where
  "init_dtf S = (case integrator S of obabo \<Rightarrow> 0.5 * dt S * ftm2v S | baoab \<Rightarrow> 0.5 * dt S * ftm2v S)"

definition init_dtv2 :: "settings \<Rightarrow> real" where
  "init_dtv2 S = init_dtv S * init_dtv S"

definition init_dtv3 :: "settings \<Rightarrow> real" where
  "init_dtv3 S = 1 / 3 * init_dtv2 S * init_dtv S * ftm2v S"

text \<open>\<^verbatim>\<open>kBT = boltz * temp\<close>, \<^verbatim>\<open>beta_np = 1.0 / boltz / Lan_temp / np\<close>, and for a barostat
  the piston mass \<^verbatim>\<open>W = 3 * natoms * tau_p * tau_p * np * kBT\<close> and \<^verbatim>\<open>Vcoeff = 1.0\<close>.\<close>

definition init_kBT :: "settings \<Rightarrow> real" where
  "init_kBT S = boltz S * temp S"

definition init_beta_np :: "settings \<Rightarrow> real" where
  "init_beta_np S = 1 / boltz S / Lan_temp S / real (np S)"

definition init_W :: "settings \<Rightarrow> real" where
  "init_W S = 3 * real (natoms S) * tau_p S * tau_p S * real (np S) * init_kBT S"

definition init_Vcoeff :: real where
  "init_Vcoeff = 1"

section \<open>\<^verbatim>\<open>nmpimd_init\<close> and \<^verbatim>\<open>nmpimd_transform\<close>\<close>

text \<open>One assignment \<^verbatim>\<open>M[i][j] = a\<close>.\<close>

definition mat_set :: "matrix \<Rightarrow> nat \<Rightarrow> nat \<Rightarrow> real \<Rightarrow> matrix" where
  "mat_set M i j a = M(i := (M i)(j := a))"

text \<open>The eigenvalue loop: \<^verbatim>\<open>sin_tmp = sin(i * MY_PI / np); lam[i] = 4 * sin_tmp * sin_tmp\<close>.\<close>

definition lam_init :: "nat \<Rightarrow> real list" where
  "lam_init P = map (\<lambda>i. let sin_tmp = sin (real i * pi / real P) in 4 * sin_tmp * sin_tmp) [0..<P]"

text \<open>The loop over the columns \<open>j\<close> that fills the cosine rows \<open>1 \<le> i < np/2 + 1\<close> and the
  sine rows \<open>np/2 + 1 \<le> i < np\<close> (\<^verbatim>\<open>np/2\<close> is the integer division of the source).\<close>

definition degenerate_rows :: "nat \<Rightarrow> matrix \<Rightarrow> matrix" where
  "degenerate_rows P M0 =
     fold (\<lambda>j M.
        fold (\<lambda>i M'. mat_set M' i j
                (sqrt 2 * sin (2 * pi * real i * real j / real P) / sqrt (real P)))
          [P div 2 + 1..<P]
          (fold (\<lambda>i M'. mat_set M' i j
                  (sqrt 2 * cos (2 * pi * real i * real j / real P) / sqrt (real P)))
             [1..<P div 2 + 1] M))
       [0..<P] M0"

text \<open>The loop that then overwrites row 0 and, for an even number of replicas, row
  \<^verbatim>\<open>np/2\<close>.\<close>

definition nondegenerate_rows :: "nat \<Rightarrow> matrix \<Rightarrow> matrix" where
  "nondegenerate_rows P M0 =
     fold (\<lambda>i M. let M1 = mat_set M 0 i (1 / sqrt (real P))
                 in if P mod 2 = 0
                    then mat_set M1 (P div 2) i (1 / sqrt (real P) * (- 1) ^ i)
                    else M1)
       [0..<P] M0"

text \<open>The loop \<^verbatim>\<open>M_xp2x[i][j] = M_x2xp[j][i]\<close>.\<close>

definition transpose_fill :: "nat \<Rightarrow> matrix \<Rightarrow> matrix \<Rightarrow> matrix" where
  "transpose_fill P M T0 =
     fold (\<lambda>i T. fold (\<lambda>j T'. mat_set T' i j (M j i)) [0..<P] T) [0..<P] T0"

text \<open>\<^verbatim>\<open>nmpimd_init\<close>; \<open>A0\<close> and \<open>B0\<close> are the contents of the two freshly allocated
  matrices.\<close>

definition nmpimd_init :: "nat \<Rightarrow> matrix \<Rightarrow> matrix \<Rightarrow> normal_modes" where
  "nmpimd_init P A0 B0 =
     (let M = nondegenerate_rows P (degenerate_rows P A0)
      in \<lparr>lam = lam_init P, M_x2xp = M, M_xp2x = transpose_fill P M B0\<rparr>)"

text \<open>The fictitious masses set at the end of \<^verbatim>\<open>nmpimd_init\<close>, by atom type.\<close>

definition nmpimd_mass :: "settings \<Rightarrow> real list \<Rightarrow> nat \<Rightarrow> (nat \<Rightarrow> real) \<Rightarrow> nat \<Rightarrow> real" where
  "nmpimd_mass S lm iworld atom_mass i =
     (if iworld \<noteq> 0
      then (case fmmode S of
              physical \<Rightarrow> atom_mass i * 1 * fmass S
            | normal \<Rightarrow> atom_mass i * lm ! iworld * fmass S)
      else atom_mass i)"

text \<open>Row \<open>k\<close> of a matrix, as the pointer \<^verbatim>\<open>M_x2xp[universe->iworld]\<close> passed to the
  transform.\<close>

definition mat_row :: "nat \<Rightarrow> matrix \<Rightarrow> nat \<Rightarrow> real list" where
  "mat_row P M k = map (M k) [0..<P]"

text \<open>\<^verbatim>\<open>nmpimd_transform\<close>: \<open>src\<close> is the bead buffer, one flat array of \<open>3 * n\<close> numbers per
  replica; the result is the destination array, flat in the same order \<open>m = 3 * i + d\<close>.\<close>

definition nmpimd_transform :: "nat \<Rightarrow> real list list \<Rightarrow> real list \<Rightarrow> nat \<Rightarrow> real list" where
  "nmpimd_transform P src vector n =
     map (\<lambda>m. fold (\<lambda>j des. des + src ! j ! m * vector ! j) [0..<P] 0) [0..<3 * n]"

text \<open>The matrix rows as the specification words them, for comparison with the loops:
  row 0 is constant, row \<open>P/2\<close> of an even \<open>P\<close> alternates in sign, the rows strictly
  below \<open>P/2\<close> are cosines and those strictly above are sines.\<close>

definition spec_forward :: "nat \<Rightarrow> nat \<Rightarrow> nat \<Rightarrow> real" where
  "spec_forward P k j =
     (if k = 0 then 1 / sqrt (real P)
      else if 2 * k = P then 1 / sqrt (real P) * (- 1) ^ j
      else if 2 * k < P then sqrt (2 / real P) * cos (2 * pi * real k * real j / real P)
      else sqrt (2 / real P) * sin (2 * pi * real k * real j / real P))"

text \<open>Every row of that matrix is a scaled cosine with a phase: the amplitude and the
  phase of row \<open>k\<close>.\<close>

definition nm_amp :: "nat \<Rightarrow> nat \<Rightarrow> real" where
  "nm_amp P k = (if k = 0 \<or> 2 * k = P then 1 / sqrt (real P) else sqrt (2 / real P))"

definition nm_phase :: "nat \<Rightarrow> nat \<Rightarrow> real" where
  "nm_phase P k = (if P < 2 * k then pi / 2 else 0)"


section \<open>\<^verbatim>\<open>Langevin_init\<close>\<close>

definition Langevin_init :: "settings \<Rightarrow> real list \<Rightarrow> langevin" where
  "Langevin_init S lm =
    (let KT = boltz S * Lan_temp S;
         beta = 1 / KT;
         w_np = real (np S) / beta / hbar S;
         w_np_dt_half = w_np * dt S * 0.5;
         wk = (case fmmode S of
                 physical \<Rightarrow> map (\<lambda>i. w_np * sqrt (lm ! i)) [0..<np S]
               | normal \<Rightarrow> map (\<lambda>i. w_np) [0..<np S]);
         lc = (case fmmode S of
                 physical \<Rightarrow> map (\<lambda>i. cos (sqrt (lm ! i) * w_np_dt_half)) [0..<np S]
               | normal \<Rightarrow> map (\<lambda>i. cos w_np_dt_half) [0..<np S]);
         ls = (case fmmode S of
                 physical \<Rightarrow> map (\<lambda>i. sin (sqrt (lm ! i) * w_np_dt_half)) [0..<np S]
               | normal \<Rightarrow> map (\<lambda>i. sin w_np_dt_half) [0..<np S]);
         g = (if tau S > 0 then 1 / tau S else real (np S) / beta / hbar S);
         c1v = (case integrator S of
                  obabo \<Rightarrow> exp (- g * 0.5 * dt S)
                | baoab \<Rightarrow> exp (- g * dt S));
         c2v = sqrt (1 - c1v * c1v);
         pile = (thermostat S = PILE_L \<or> thermostat S = PILE_G);
         tk = (if pile then tau S # map (\<lambda>i. 0.5 / pilescale S / wk ! i) [1..<np S] else []);
         c1k = (if pile
                then c1v # map (\<lambda>i. case integrator S of
                                        obabo \<Rightarrow> exp (- 0.5 * dt S / tk ! i)
                                      | baoab \<Rightarrow> exp (- 1 * dt S / tk ! i)) [1..<np S]
                else []);
         c2k = (if pile then c2v # map (\<lambda>i. sqrt (1 - c1k ! i * c1k ! i)) [1..<np S] else [])
     in \<lparr>omega_np = w_np, omega_k = wk, Lan_c = lc, Lan_s = ls, gamma = g, c1 = c1v, c2 = c2v,
         tau_k = tk, c1_k = c1k, c2_k = c2k\<rparr>)"

section \<open>The elementary propagators\<close>

text \<open>\<^verbatim>\<open>b_step\<close>: the force kick \<^verbatim>\<open>v[i][d] += dtf / mass[type[i]] * f[i][d]\<close>.\<close>

definition b_step :: "real \<Rightarrow> (nat \<Rightarrow> real) \<Rightarrow> atom list \<Rightarrow> atom list" where
  "b_step dtf mass as =
     map (\<lambda>a. let dtfm = dtf / mass (atom_type a);
                  (v0, v1, v2) = atom_v a;
                  (f0, f1, f2) = atom_f a
              in a\<lparr>atom_v := (v0 + dtfm * f0, v1 + dtfm * f1, v2 + dtfm * f2)\<rparr>) as"

text \<open>\<^verbatim>\<open>a_step\<close>: on every replica but the centroid one, the rotation of each coordinate
  with the coefficients stored by \<^verbatim>\<open>Langevin_init\<close>; nothing on replica 0.\<close>

definition a_step :: "nat \<Rightarrow> langevin \<Rightarrow> atom list \<Rightarrow> atom list" where
  "a_step iworld L as =
     (if iworld \<noteq> 0
      then map (\<lambda>a. let (x0, x1, x2) = atom_x a;
                        (v0, v1, v2) = atom_v a;
                        c = Lan_c L ! iworld;
                        s = Lan_s L ! iworld;
                        w = omega_k L ! iworld
                    in a\<lparr>atom_x := (c * x0 + 1 / w * s * v0,
                                    c * x1 + 1 / w * s * v1,
                                    c * x2 + 1 / w * s * v2),
                         atom_v := (- 1 * w * s * x0 + c * v0,
                                    - 1 * w * s * x1 + c * v1,
                                    - 1 * w * s * x2 + c * v2)\<rparr>) as
      else as)"

text \<open>\<^verbatim>\<open>qc_step\<close>, the part that acts on the atoms of one process. Without a barostat
  (\<^verbatim>\<open>pextflag\<close> unset) the centroid replica drifts by \<^verbatim>\<open>dtv\<close>; with a barostat only the
  BZP branch moves the atoms, scaling positions and velocities with the piston velocity
  \<^verbatim>\<open>vw\<close>, here \<open>w\<close>. The box rescaling and its broadcast that follow in the source do not touch the
  atoms and are left out.\<close>

definition qc_step :: "settings \<Rightarrow> real \<Rightarrow> nat \<Rightarrow> atom list \<Rightarrow> atom list" where
  "qc_step S w iworld as =
     (if \<not> pextflag S
      then (if iworld = 0
            then map (\<lambda>a. let (x0, x1, x2) = atom_x a; (v0, v1, v2) = atom_v a
                          in a\<lparr>atom_x := (x0 + init_dtv S * v0,
                                          x1 + init_dtv S * v1,
                                          x2 + init_dtv S * v2)\<rparr>) as
            else as)
      else (if iworld = 0
            then (let expq = exp (init_dtv S * w); expp = exp (- init_dtv S * w)
                  in if barostat S = BZP
                     then map (\<lambda>a. let (x0, x1, x2) = atom_x a; (v0, v1, v2) = atom_v a
                                   in a\<lparr>atom_x := (expq * x0 + (expq - expp) / 2 / w * v0,
                                                   expq * x1 + (expq - expp) / 2 / w * v1,
                                                   expq * x2 + (expq - expp) / 2 / w * v2),
                                        atom_v := (expp * v0, expp * v1, expp * v2)\<rparr>) as
                     else as)
            else as))"

text \<open>The single-mode harmonic energy of one coordinate.\<close>

definition mode_energy :: "real \<Rightarrow> real \<Rightarrow> real \<Rightarrow> real \<Rightarrow> real" where
  "mode_energy m w q p = 0.5 * m * w\<^sup>2 * q\<^sup>2 + 0.5 * m * p\<^sup>2"

text \<open>The PILE\_L branch of \<^verbatim>\<open>o_step\<close>. The random number generator is a sequence of
  draws \<open>g\<close> with a read position: every call of \<^verbatim>\<open>random->gaussian()\<close> returns the draw at
  the position and advances it. Each atom takes three draws \<^verbatim>\<open>r1\<close>, \<^verbatim>\<open>r2\<close>, \<^verbatim>\<open>r3\<close>.\<close>

fun pile_atoms :: "real \<Rightarrow> real \<Rightarrow> real \<Rightarrow> (nat \<Rightarrow> real) \<Rightarrow> (nat \<Rightarrow> real) \<Rightarrow> nat \<Rightarrow>
    atom list \<Rightarrow> atom list \<times> nat" where
  "pile_atoms c1k c2k beta_np mass g n [] = ([], n)"
| "pile_atoms c1k c2k beta_np mass g n (a # as) =
     (let r1 = g n; r2 = g (n + 1); r3 = g (n + 2);
          (v0, v1, v2) = atom_v a;
          a' = a\<lparr>atom_v := (c1k * v0 + c2k * sqrt (1 / mass (atom_type a) / beta_np) * r1,
                            c1k * v1 + c2k * sqrt (1 / mass (atom_type a) / beta_np) * r2,
                            c1k * v2 + c2k * sqrt (1 / mass (atom_type a) / beta_np) * r3)\<rparr>;
          (as', n') = pile_atoms c1k c2k beta_np mass g (n + 3) as
      in (a' # as', n'))"

definition o_step_PILE_L :: "settings \<Rightarrow> langevin \<Rightarrow> (nat \<Rightarrow> real) \<Rightarrow> nat \<Rightarrow> (nat \<Rightarrow> real) \<Rightarrow> nat \<Rightarrow>
    atom list \<Rightarrow> atom list \<times> nat" where
  "o_step_PILE_L S L mass iworld g n as =
     (let beta_np = 1 / boltz S / Lan_temp S / real (np S) * mvv2e S
      in pile_atoms (c1_k L ! iworld) (c2_k L ! iworld) beta_np mass g n as)"

text \<open>\<^verbatim>\<open>remove_com_motion\<close>; \<open>vcm\<close> is the centre-of-mass velocity that the host's
  \<^verbatim>\<open>group->vcm\<close> returns.\<close>

definition remove_com_motion :: "nat \<Rightarrow> vec3 \<Rightarrow> atom list \<Rightarrow> atom list" where
  "remove_com_motion iworld vcm as =
     (if iworld = 0
      then map (\<lambda>a. if atom_in_group a
                    then (let (v0, v1, v2) = atom_v a; (m0, m1, m2) = vcm
                          in a\<lparr>atom_v := (v0 - m0, v1 - m1, v2 - m2)\<rparr>)
                    else a) as
      else as)"

section \<open>The barostat: \<^verbatim>\<open>press_v_step\<close> and \<^verbatim>\<open>press_o_step\<close>\<close>

definition volume_of :: "proc \<Rightarrow> real" where
  "volume_of p = xprd p * yprd p * zprd p"

text \<open>The first statement of the BZP branch, which every process executes on its own
  copy of \<^verbatim>\<open>vw\<close>.\<close>

definition bzp_kick :: "settings \<Rightarrow> proc \<Rightarrow> proc" where
  "bzp_kick S p =
     p\<lparr>vw := vw p + init_dtv S * 3 *
         (volume_of p * real (np S) * (p_cv p - Pext S) / nktv2p S + init_Vcoeff / init_beta_np S)
         / init_W S\<rparr>"

text \<open>The double loop over the local atoms and the three coordinates that accumulates
  \<^verbatim>\<open>dvw_proc\<close>.\<close>

definition dvw_proc :: "settings \<Rightarrow> (nat \<Rightarrow> real) \<Rightarrow> atom list \<Rightarrow> real" where
  "dvw_proc S mass as =
     fold (\<lambda>a acc.
        fold (\<lambda>j acc'. acc' + init_dtv2 S * coord (atom_f a) j * coord (atom_v a) j / init_W S
                          + init_dtv3 S * coord (atom_f a) j * coord (atom_f a) j
                              / mass (atom_type a) / init_W S)
          [0..<3] acc)
       as 0"

text \<open>The MTTK branch, local to every process.\<close>

definition mttk_kick :: "settings \<Rightarrow> proc \<Rightarrow> proc" where
  "mttk_kick S p =
     (let mtk_term1 = 2 / real (natoms S) * totke p / 3;
          f_omega = (volume_of p * real (np S) * (p_md p - Pext S) + mtk_term1) / init_W S
      in p\<lparr>vw := vw p + 0.5 * init_dtv S * f_omega\<rparr>)"

text \<open>\<^verbatim>\<open>press_v_step\<close> on the whole grid. \<^verbatim>\<open>MPI_Allreduce\<close> with \<^verbatim>\<open>MPI_SUM\<close> over \<^verbatim>\<open>world\<close>
  gives every process of replica 0 the sum of the \<^verbatim>\<open>dvw_proc\<close> of that replica's
  processes; \<^verbatim>\<open>MPI_Bcast\<close> with root 0 over \<^verbatim>\<open>universe->uworld\<close> gives every process of the
  grid the \<^verbatim>\<open>vw\<close> of universe rank 0. \<open>mass\<close> is the mass array of replica 0.\<close>

definition press_v_step :: "settings \<Rightarrow> (nat \<Rightarrow> real) \<Rightarrow> grid \<Rightarrow> grid" where
  "press_v_step S mass G =
     (case barostat S of
        BZP \<Rightarrow>
          (let G1 = map (map (bzp_kick S)) G;
               dvw = sum_list (map (\<lambda>p. dvw_proc S mass (atoms p)) (G1 ! 0));
               G2 = G1[0 := map (\<lambda>p. p\<lparr>vw := vw p + dvw\<rparr>) (G1 ! 0)];
               root = vw (G2 ! 0 ! 0)
           in map (map (\<lambda>p. p\<lparr>vw := root\<rparr>)) G2)
      | MTTK \<Rightarrow> map (map (mttk_kick S)) G)"

text \<open>\<^verbatim>\<open>press_o_step\<close> on the whole grid: universe rank 0 draws \<^verbatim>\<open>r1\<close> and updates its
  \<^verbatim>\<open>vw\<close>, which is then broadcast.\<close>

definition press_o_step :: "settings \<Rightarrow> langevin \<Rightarrow> real \<Rightarrow> grid \<Rightarrow> grid" where
  "press_o_step S L r1 G =
     (let root = c1 L * vw (G ! 0 ! 0) + c2 L * sqrt (1 / init_W S / init_beta_np S) * r1
      in map (map (\<lambda>p. p\<lparr>vw := root\<rparr>)) G)"

text \<open>The update of the piston velocity as the specification words it, with the time
  step \<open>h\<close> in front of the bracket and an unspecified piston-coupling term \<open>T\<close> inside
  it.\<close>

definition spec_piston_kick :: "real \<Rightarrow> real \<Rightarrow> real \<Rightarrow> real \<Rightarrow> real \<Rightarrow> real \<Rightarrow> real \<Rightarrow> real \<Rightarrow> real" where
  "spec_piston_kick h V P pcv pext nktv T W = h * (3 * (V * P * (pcv - pext)) / nktv + T) / W"

section \<open>The keyword \<^verbatim>\<open>fixcom\<close> and the order of the sub-steps\<close>

text \<open>The constructor starts from \<^verbatim>\<open>removecomflag = 1\<close> and \<^verbatim>\<open>mapflag = 1\<close>; the branches of
  its keyword loop for \<^verbatim>\<open>fixcom\<close> and for \<^verbatim>\<open>map\<close> compare the value with \<^verbatim>\<open>"no"\<close> and
  \<^verbatim>\<open>"yes"\<close> and leave the flag alone for any other value.\<close>

definition removecomflag_default :: bool where
  "removecomflag_default = True"

definition fixcom_keyword :: "string \<Rightarrow> bool \<Rightarrow> bool" where
  "fixcom_keyword val flag =
     (if val = ''no'' then True else if val = ''yes'' then False else flag)"

definition map_keyword :: "string \<Rightarrow> bool \<Rightarrow> bool" where
  "map_keyword val flag =
     (if val = ''yes'' then True else if val = ''no'' then False else flag)"

text \<open>The calls that \<^verbatim>\<open>initial_integrate\<close> and \<^verbatim>\<open>final_integrate\<close> make, in order.
  \<open>Transform_x2xp\<close> and \<open>Transform_xp2x\<close> stand for the three calls \<^verbatim>\<open>nmpimd_fill\<close>,
  \<^verbatim>\<open>comm_exec\<close>, \<^verbatim>\<open>nmpimd_transform\<close> on the positions.\<close>

datatype substep =
    Unmap | O_step | Remove_com_motion | Press_o_step | Compute_totke | Compute_p_cv
  | Press_v_step | B_step | Transform_x2xp | Qc_step | A_step | Compute_spring_energy
  | Transform_xp2x | Unmap_inv

definition thermostat_block :: "settings \<Rightarrow> substep list" where
  "thermostat_block S =
     (if ensemble S = nvt \<or> ensemble S = npt
      then [O_step] @ (if removecomflag S then [Remove_com_motion] else [])
             @ (if pextflag S then [Press_o_step] else [])
      else [])"

definition initial_integrate :: "settings \<Rightarrow> substep list" where
  "initial_integrate S =
     (if mapflag S then [Unmap] else [])
     @ (case integrator S of
          obabo \<Rightarrow>
            thermostat_block S @ [Compute_totke, Compute_p_cv]
            @ (if pextflag S then [Press_v_step] else [])
            @ [B_step] @ (if removecomflag S then [Remove_com_motion] else [])
            @ (if pimd_method S = NMPIMD then [Transform_x2xp] else [])
            @ [Qc_step, A_step, Qc_step, A_step]
        | baoab \<Rightarrow>
            (if pextflag S then [Press_v_step] else [])
            @ [B_step]
            @ (if pimd_method S = NMPIMD then [Transform_x2xp] else [])
            @ [Qc_step, A_step] @ thermostat_block S @ [Qc_step, A_step])
     @ [Compute_spring_energy]
     @ (if pimd_method S = NMPIMD then [Transform_xp2x] else [])
     @ (if mapflag S then [Unmap_inv] else [])"

definition final_integrate :: "settings \<Rightarrow> substep list" where
  "final_integrate S =
     (if pextflag S then [Compute_totke, Compute_p_cv, Press_v_step] else [])
     @ [B_step] @ (if removecomflag S then [Remove_com_motion] else [])
     @ (case integrator S of obabo \<Rightarrow> thermostat_block S | baoab \<Rightarrow> [])"

text \<open>The sub-steps that change velocities of the atoms of the centroid replica.\<close>

definition changes_velocity :: "substep \<Rightarrow> bool" where
  "changes_velocity s = (s = O_step \<or> s = B_step)"

text \<open>Every velocity-changing call in the list is directly followed by a removal of the
  centre-of-mass motion.\<close>

fun com_removed_after_each :: "substep list \<Rightarrow> bool" where
  "com_removed_after_each [] = True"
| "com_removed_after_each [s] = (\<not> changes_velocity s)"
| "com_removed_after_each (s # t # ss) =
     ((if changes_velocity s then t = Remove_com_motion else True) \<and> com_removed_after_each (t # ss))"

section \<open>The energy estimators \<^verbatim>\<open>compute_tote\<close> and \<^verbatim>\<open>compute_totenthalpy\<close>\<close>

definition compute_tote :: "proc \<Rightarrow> proc" where
  "compute_tote p = p\<lparr>tote := totke p + pote p + total_spring_energy p\<rparr>"

definition compute_totenthalpy :: "settings \<Rightarrow> proc \<Rightarrow> proc" where
  "compute_totenthalpy S p =
     (let volume = xprd p * yprd p * zprd p
      in case barostat S of
           BZP \<Rightarrow> p\<lparr>totenthalpy := tote p + 0.5 * init_W S * vw p * vw p / real (np S)
                       + Pext S * volume / nktv2p S - init_Vcoeff * init_kBT S * ln volume\<rparr>
         | MTTK \<Rightarrow> p\<lparr>totenthalpy := tote p + 1.5 * init_W S * vw p * vw p / real (np S)
                       + Pext S * (volume - vol0 S)\<rparr>)"

text \<open>The last two statements of \<^verbatim>\<open>end_of_step\<close>.\<close>

definition end_of_step_energies :: "settings \<Rightarrow> proc \<Rightarrow> proc" where
  "end_of_step_energies S p =
     (let p1 = compute_tote p in if pextflag S then compute_totenthalpy S p1 else p1)"

text \<open>Entry 11 of \<^verbatim>\<open>compute_vector\<close>, the piston kinetic energy that the fix reports.\<close>

definition piston_kinetic_energy :: "settings \<Rightarrow> proc \<Rightarrow> real" where
  "piston_kinetic_energy S p = 0.5 * init_W S * vw p * vw p"

text \<open>The enthalpy as the specification words it: the total energy, the piston kinetic
  energy, and the pressure-volume term of the barostat variant.\<close>

definition spec_enthalpy :: "settings \<Rightarrow> proc \<Rightarrow> real" where
  "spec_enthalpy S p =
     (let V = xprd p * yprd p * zprd p
      in case barostat S of
           MTTK \<Rightarrow> tote p + piston_kinetic_energy S p + Pext S * (V - vol0 S)
         | BZP \<Rightarrow> tote p + piston_kinetic_energy S p
                   + (Pext S * V - init_Vcoeff * init_kBT S * ln V))"

section \<open>The bead exchange: \<^verbatim>\<open>comm_init\<close> and \<^verbatim>\<open>comm_exec\<close>\<close>

text \<open>What one process contributes to an exchange: its tags \<^verbatim>\<open>atom->tag[0..nlocal)\<close>, the
  host's lookup \<^verbatim>\<open>atom->map\<close> from a tag to a local index (negative when the tag is
  unknown), and the array \<^verbatim>\<open>ptr[0..nlocal)\<close> being exchanged.\<close>

record cproc =
  tags :: "int list"
  atom_map :: "int \<Rightarrow> int"
  ptr :: "vec3 list"

text \<open>One row \<^verbatim>\<open>buf_beads[k]\<close> of the bead buffer maps a slot index to the three numbers
  stored at \<^verbatim>\<open>3 * index\<close>; the index is an integer, as the one \<^verbatim>\<open>atom->map\<close> returns.\<close>

type_synonym bead_row = "int \<Rightarrow> vec3"

text \<open>The communication plan of \<^verbatim>\<open>comm_init\<close> for the process \<open>me\<close> of replica \<open>iworld\<close>
  in a grid of \<open>P\<close> replicas with \<open>ncomms\<close> processes each: entry \<open>i * ncomms + j\<close> of
  \<^verbatim>\<open>plan_send\<close>, \<^verbatim>\<open>plan_recv\<close> and \<^verbatim>\<open>mode_index\<close>.\<close>

definition plan_send :: "nat \<Rightarrow> nat \<Rightarrow> nat \<Rightarrow> nat \<Rightarrow> nat list" where
  "plan_send P ncomms iworld me =
     concat (map (\<lambda>i. map (\<lambda>j. ((iworld + i + 1) mod P) * ncomms + (me + j) mod ncomms)
                        [0..<ncomms]) [0..<P - 1])"

definition plan_recv :: "nat \<Rightarrow> nat \<Rightarrow> nat \<Rightarrow> nat \<Rightarrow> nat list" where
  "plan_recv P ncomms iworld me =
     concat (map (\<lambda>i. map (\<lambda>j. ((iworld + P - i - 1) mod P) * ncomms + (me + ncomms - j) mod ncomms)
                        [0..<ncomms]) [0..<P - 1])"

definition mode_index :: "nat \<Rightarrow> nat \<Rightarrow> nat \<Rightarrow> nat list" where
  "mode_index P ncomms iworld =
     concat (map (\<lambda>i. map (\<lambda>j. (iworld + i + 1) mod P) [0..<ncomms]) [0..<P - 1])"

text \<open>The \<^verbatim>\<open>memcpy\<close> of the local array into the process's own row.\<close>

definition copy_local :: "vec3 list \<Rightarrow> bead_row \<Rightarrow> bead_row" where
  "copy_local vals row = (\<lambda>s. if 0 \<le> s \<and> s < int (length vals) then vals ! nat s else row s)"

text \<open>What the peer \<open>q\<close> sends back for the tags it was asked to search: for every tag
  that its \<^verbatim>\<open>atom->map\<close> resolves to one of its local atoms, that atom's tag and value.\<close>

definition search_reply :: "cproc \<Rightarrow> int list \<Rightarrow> (int \<times> vec3) list" where
  "search_reply q tag_search =
     concat (map (\<lambda>t. let index = atom_map q t
                      in if index \<ge> 0 \<and> index < int (length (tags q))
                         then [(tags q ! nat index, ptr q ! nat index)]
                         else []) tag_search)"

text \<open>The final loop of a plan entry, which stores each received value at the slot
  \<^verbatim>\<open>atom->map(tag_recv[i])\<close>.\<close>

definition store_reply :: "(int \<Rightarrow> int) \<Rightarrow> (int \<times> vec3) list \<Rightarrow> bead_row \<Rightarrow> bead_row" where
  "store_reply mp reply row = fold (\<lambda>tv r. r(mp (fst tv) := snd tv)) reply row"

text \<open>\<^verbatim>\<open>comm_exec\<close> as the process \<open>me\<close> of replica \<open>iworld\<close> sees it. \<open>G\<close> lists the
  processes by universe rank \<open>iworld * ncomms + me\<close>; \<open>B\<close> is the process's \<^verbatim>\<open>buf_beads\<close>
  before the call. In plan entry \<open>iplan\<close> the process sends its tags to
  \<^verbatim>\<open>plan_send[iplan]\<close> and receives from that same peer the matches the peer found. The
  function has no error result: the source has no call of \<^verbatim>\<open>error\<close> in \<^verbatim>\<open>comm_exec\<close>, and
  the count \<^verbatim>\<open>nfound\<close> it accumulates is never read.\<close>

definition comm_exec :: "nat \<Rightarrow> nat \<Rightarrow> cproc list \<Rightarrow> nat \<Rightarrow> nat \<Rightarrow> bead_row list \<Rightarrow> bead_row list" where
  "comm_exec P ncomms G iworld me B =
     (let self = G ! (iworld * ncomms + me);
          B0 = B[iworld := copy_local (ptr self) (B ! iworld)];
          ps = plan_send P ncomms iworld me;
          mi = mode_index P ncomms iworld
      in fold (\<lambda>iplan B'.
                 let peer = G ! (ps ! iplan);
                     reply = search_reply peer (tags self);
                     k = mi ! iplan
                 in B'[k := store_reply (atom_map self) reply (B' ! k)])
           [0..<length ps] B0)"

text \<open>The test of the search loop, and two properties of a host whose \<^verbatim>\<open>atom->map\<close> agrees
  with its tag array: an owned tag resolves to its own index, and a tag that resolves to
  a local index is the tag stored there.\<close>

definition finds :: "cproc \<Rightarrow> int \<Rightarrow> bool" where
  "finds q t = (0 \<le> atom_map q t \<and> atom_map q t < int (length (tags q)))"

definition map_consistent :: "cproc \<Rightarrow> bool" where
  "map_consistent q = (\<forall>j<length (tags q). atom_map q (tags q ! j) = int j)"

definition tags_consistent :: "cproc \<Rightarrow> bool" where
  "tags_consistent q = (\<forall>t. finds q t \<longrightarrow> tags q ! nat (atom_map q t) = t)"


section \<open>Concrete configurations\<close>

text \<open>Four replicas, unit constants, a time step of 1, no barostat; one atom of type 1
  at the origin moving with unit velocity, and one in general position.\<close>

definition ex_settings :: settings where
  "ex_settings =
     \<lparr>np = 4, dt = 1, boltz = 1, hbar = 1, mvv2e = 1, ftm2v = 1, nktv2p = 1, temp = 1,
      Lan_temp = 1, tau = 1, tau_p = 1, pilescale = 1, Pext = 1, natoms = 1, vol0 = 1,
      fmass = 1, fmmode = physical, integrator = obabo, thermostat = PILE_L, barostat = BZP,
      ensemble = nvt, pimd_method = NMPIMD, pextflag = False, removecomflag = True, mapflag = True\<rparr>"

definition ex_atom :: atom where
  "ex_atom = \<lparr>atom_tag = 1, atom_type = 1, atom_in_group = True,
              atom_x = (0, 0, 0), atom_v = (1, 1, 1), atom_f = (0, 0, 0)\<rparr>"

definition ex_atom2 :: atom where
  "ex_atom2 = \<lparr>atom_tag = 1, atom_type = 1, atom_in_group = True,
               atom_x = (1, 2, 3), atom_v = (4, 5, 6), atom_f = (0, 0, 0)\<rparr>"

text \<open>The same configuration with the thermostat off, and with a barostat; one process
  with a unit box and unit piston velocity; the matrix of zeros.\<close>

definition ex_nve :: settings where
  "ex_nve = ex_settings\<lparr>ensemble := nve\<rparr>"

definition ex_npt :: settings where
  "ex_npt = ex_settings\<lparr>ensemble := npt, pextflag := True\<rparr>"

definition ex_proc :: proc where
  "ex_proc = \<lparr>vw = 1, xprd = 1, yprd = 1, zprd = 1, p_cv = 2, p_md = 0, totke = 0, pote = 0,
              total_spring_energy = 0, tote = 0, totenthalpy = 0, atoms = [ex_atom]\<rparr>"

definition zero_matrix :: matrix where
  "zero_matrix = (\<lambda>i j. 0)"


text \<open>A grid of two replicas, the first with two processes; and an exchange between two
  replicas of one process each that own different atoms, with a bead buffer whose rows hold
  an old value.\<close>

definition ex_grid :: grid where
  "ex_grid = [[ex_proc, ex_proc\<lparr>vw := 5\<rparr>], [ex_proc\<lparr>vw := 7\<rparr>]]"

definition ex_cgrid :: "cproc list" where
  "ex_cgrid =
     [\<lparr>tags = [7], atom_map = (\<lambda>t. if t = 7 then 0 else - 1), ptr = [(1, 1, 1)]\<rparr>,
      \<lparr>tags = [8], atom_map = (\<lambda>t. if t = 8 then 0 else - 1), ptr = [(2, 2, 2)]\<rparr>]"

definition stale_row :: bead_row where
  "stale_row = (\<lambda>s. (99, 99, 99))"


section \<open>Properties of the harmonic rotation\<close>

lemma Langevin_init_lengths:
  "length (omega_k (Langevin_init S lm)) = np S"
  "length (Lan_c (Langevin_init S lm)) = np S"
  "length (Lan_s (Langevin_init S lm)) = np S"
  by (simp_all add: Langevin_init_def Let_def split: fmmode_t.split)

lemma Langevin_init_angle:
  assumes "k < np S"
  shows "Lan_c (Langevin_init S lm) ! k = cos (omega_k (Langevin_init S lm) ! k * dt S / 2)"
    and "Lan_s (Langevin_init S lm) ! k = sin (omega_k (Langevin_init S lm) ! k * dt S / 2)"
  using assms
  by (simp_all add: Langevin_init_def Let_def mult_ac split: fmmode_t.split)

lemma rotation_ring:
  fixes w :: real
  shows "(w * a * q + b * p)\<^sup>2 + (- 1 * w * b * q + a * p)\<^sup>2 = (w\<^sup>2 * q\<^sup>2 + p\<^sup>2) * (b\<^sup>2 + a\<^sup>2)"
  by (simp add: power2_eq_square algebra_simps)

lemma rotation_energy:
  fixes w :: real
  assumes "w \<noteq> 0"
  shows "mode_energy m w (cos t * q + 1 / w * sin t * p) (- 1 * w * sin t * q + cos t * p)
         = mode_energy m w q p"
proof -
  have sc: "(sin t)\<^sup>2 + (cos t)\<^sup>2 = 1" by simp
  have e1: "w * (cos t * q + 1 / w * sin t * p) = w * cos t * q + sin t * p"
    using assms by (simp add: field_simps)
  have "w\<^sup>2 * (cos t * q + 1 / w * sin t * p)\<^sup>2 = (w * cos t * q + sin t * p)\<^sup>2"
    by (simp only: power_mult_distrib [symmetric] e1)
  then have "w\<^sup>2 * (cos t * q + 1 / w * sin t * p)\<^sup>2 + (- 1 * w * sin t * q + cos t * p)\<^sup>2
        = w\<^sup>2 * q\<^sup>2 + p\<^sup>2"
    by (simp only: rotation_ring sc mult_1_right)
  then have "0.5 * m * (w\<^sup>2 * (cos t * q + 1 / w * sin t * p)\<^sup>2 + (- 1 * w * sin t * q + cos t * p)\<^sup>2)
        = 0.5 * m * (w\<^sup>2 * q\<^sup>2 + p\<^sup>2)"
    by (simp only:)
  then show ?thesis
    by (simp add: mode_energy_def algebra_simps)
qed

lemma a_step_length: "length (a_step k L as) = length as"
  by (simp add: a_step_def)

lemma a_step_coord:
  assumes "k \<noteq> 0" "i < length as" "d < 3"
  shows "coord (atom_x (a_step k L as ! i)) d
           = Lan_c L ! k * coord (atom_x (as ! i)) d
             + 1 / omega_k L ! k * Lan_s L ! k * coord (atom_v (as ! i)) d"
    and "coord (atom_v (a_step k L as ! i)) d
           = - 1 * omega_k L ! k * Lan_s L ! k * coord (atom_x (as ! i)) d
             + Lan_c L ! k * coord (atom_v (as ! i)) d"
  using assms
  by (auto simp: a_step_def coord_def Let_def split: prod.splits)

text \<open>
  C4. One \<^verbatim>\<open>a_step\<close> on a replica other than the centroid one, with the coefficients that
  \<^verbatim>\<open>Langevin_init\<close> stored, leaves the harmonic energy
  \<open>0.5 m \<omega>\<^sup>2 x\<^sup>2 + 0.5 m v\<^sup>2\<close> of every coordinate of every local atom unchanged, whatever
  the position, the velocity, the mass \<open>m\<close> and the time step are, when the frequency
  \<open>\<omega>\<close> of the replica's mode is positive. The equality is exact in real arithmetic.
\<close>

theorem a_step_preserves_mode_energy:
  assumes "k < np S" and "k \<noteq> 0" and "0 < omega_k (Langevin_init S lm) ! k"
    and "i < length as" and "d < 3"
  shows "mode_energy m (omega_k (Langevin_init S lm) ! k)
           (coord (atom_x (a_step k (Langevin_init S lm) as ! i)) d)
           (coord (atom_v (a_step k (Langevin_init S lm) as ! i)) d)
         = mode_energy m (omega_k (Langevin_init S lm) ! k)
             (coord (atom_x (as ! i)) d) (coord (atom_v (as ! i)) d)"
proof -
  let ?L = "Langevin_init S lm"
  have w: "omega_k ?L ! k \<noteq> 0" using assms(3) by simp
  show ?thesis
    unfolding a_step_coord [OF assms(2) assms(4) assms(5)]
      Langevin_init_angle [OF assms(1)]
    by (rule rotation_energy [OF w])
qed

lemma ex_omega_k_1: "omega_k (Langevin_init ex_settings [0, 2, 4, 2]) ! 1 = 4 * sqrt 2"
  by (simp add: Langevin_init_def ex_settings_def Let_def upt_rec [of 0] upt_rec [of 1]
      upt_rec [of 2] upt_rec [of 3])

theorem a_step_preserves_mode_energy_witness:
  "(1::nat) < np ex_settings \<and> 0 < omega_k (Langevin_init ex_settings [0, 2, 4, 2]) ! 1
   \<and> mode_energy 1 (omega_k (Langevin_init ex_settings [0, 2, 4, 2]) ! 1)
        (coord (atom_x (a_step 1 (Langevin_init ex_settings [0, 2, 4, 2]) [ex_atom2] ! 0)) 0)
        (coord (atom_v (a_step 1 (Langevin_init ex_settings [0, 2, 4, 2]) [ex_atom2] ! 0)) 0)
      = mode_energy 1 (omega_k (Langevin_init ex_settings [0, 2, 4, 2]) ! 1)
          (coord (atom_x ([ex_atom2] ! 0)) 0) (coord (atom_v ([ex_atom2] ! 0)) 0)"
proof -
  have h1: "(1::nat) < np ex_settings" by (simp add: ex_settings_def)
  have h2: "0 < omega_k (Langevin_init ex_settings [0, 2, 4, 2]) ! 1"
    unfolding ex_omega_k_1 by simp
  have h3: "(1::nat) \<noteq> 0" by simp
  have h4: "(0::nat) < length [ex_atom2]" by simp
  have h5: "(0::nat) < 3" by simp
  show ?thesis
    using a_step_preserves_mode_energy [OF h1 h3 h2 h4 h5, of 1] h1 h2 by blast
qed

lemma exp_neg_unit:
  fixes a :: real
  assumes "0 \<le> a"
  shows "0 < exp (- a) \<and> exp (- a) \<le> 1 \<and> (exp (- a))\<^sup>2 + (sqrt (1 - exp (- a) * exp (- a)))\<^sup>2 = 1"
proof -
  have le: "exp (- a) \<le> 1" using assms by simp
  have pos: "0 < exp (- a)" by simp
  have "exp (- a) * exp (- a) \<le> 1 * 1"
    using le pos by (intro mult_mono) simp_all
  then have "0 \<le> 1 - exp (- a) * exp (- a)" by simp
  then have "(sqrt (1 - exp (- a) * exp (- a)))\<^sup>2 = 1 - exp (- a) * exp (- a)"
    by simp
  then show ?thesis using le pos by (simp add: power2_eq_square)
qed

lemma Langevin_init_c1:
  "c1 (Langevin_init S lm) =
     (case integrator S of
        obabo \<Rightarrow> exp (- (if tau S > 0 then 1 / tau S else real (np S) / (1 / (boltz S * Lan_temp S)) / hbar S) * 0.5 * dt S)
      | baoab \<Rightarrow> exp (- (if tau S > 0 then 1 / tau S else real (np S) / (1 / (boltz S * Lan_temp S)) / hbar S) * dt S))"
  "c2 (Langevin_init S lm) = sqrt (1 - c1 (Langevin_init S lm) * c1 (Langevin_init S lm))"
  by (simp_all add: Langevin_init_def Let_def)

lemma Langevin_init_pile:
  assumes "thermostat S = PILE_L \<or> thermostat S = PILE_G" "0 < k" "k < np S"
  shows "tau_k (Langevin_init S lm) ! k = 0.5 / pilescale S / omega_k (Langevin_init S lm) ! k"
    and "c1_k (Langevin_init S lm) ! k =
          (case integrator S of
             obabo \<Rightarrow> exp (- 0.5 * dt S / tau_k (Langevin_init S lm) ! k)
           | baoab \<Rightarrow> exp (- 1 * dt S / tau_k (Langevin_init S lm) ! k))"
    and "c2_k (Langevin_init S lm) ! k
          = sqrt (1 - c1_k (Langevin_init S lm) ! k * c1_k (Langevin_init S lm) ! k)"
  using assms
  by (auto simp: Langevin_init_def Let_def nth_Cons' split: fmmode_t.split integrator_t.split)

lemma Langevin_init_pile0:
  assumes "thermostat S = PILE_L \<or> thermostat S = PILE_G"
  shows "tau_k (Langevin_init S lm) ! 0 = tau S"
    and "c1_k (Langevin_init S lm) ! 0 = c1 (Langevin_init S lm)"
    and "c2_k (Langevin_init S lm) ! 0 = c2 (Langevin_init S lm)"
  using assms
  by (auto simp: Langevin_init_def Let_def)

lemma Langevin_init_omega:
  assumes "k < np S"
  shows "omega_k (Langevin_init S lm) ! k
         = (case fmmode S of
              physical \<Rightarrow> real (np S) * (boltz S * Lan_temp S) / hbar S * sqrt (lm ! k)
            | normal \<Rightarrow> real (np S) * (boltz S * Lan_temp S) / hbar S)"
  using assms
  by (simp add: Langevin_init_def Let_def split: fmmode_t.split)

lemma Langevin_init_omega_pos:
  assumes "k < np S" and "0 < boltz S * Lan_temp S" and "0 < hbar S"
    and "fmmode S = physical \<longrightarrow> 0 < lm ! k"
  shows "0 < omega_k (Langevin_init S lm) ! k"
proof -
  have n: "0 < real (np S)" using assms(1) by simp
  have w: "0 < real (np S) * (boltz S * Lan_temp S) / hbar S"
    using n assms(2,3) by simp
  show ?thesis
  proof (cases "fmmode S")
    case physical
    then have "0 < sqrt (lm ! k)" using assms(4) by simp
    then have "0 < real (np S) * (boltz S * Lan_temp S) / hbar S * sqrt (lm ! k)"
      using w by (rule mult_pos_pos [rotated])
    then show ?thesis
      unfolding Langevin_init_omega [OF assms(1)] using physical by simp
  next
    case normal
    then show ?thesis
      unfolding Langevin_init_omega [OF assms(1)] using w by simp
  qed
qed

lemma exp_neg_strict:
  fixes a :: real
  assumes "0 < a"
  shows "0 < exp (- a) \<and> exp (- a) < 1 \<and> 0 < sqrt (1 - exp (- a) * exp (- a))"
proof -
  have lt: "exp (- a) < 1" using assms by simp
  have pos: "0 < exp (- a)" by simp
  have "exp (- a) * exp (- a) < 1 * 1"
    using lt pos by (intro mult_strict_mono) simp_all
  then have "0 < 1 - exp (- a) * exp (- a)" by simp
  then have "0 < sqrt (1 - exp (- a) * exp (- a))" by simp
  then show ?thesis using lt pos by blast
qed

lemma Langevin_init_gamma:
  "gamma (Langevin_init S lm)
   = (if tau S > 0 then 1 / tau S else real (np S) * (boltz S * Lan_temp S) / hbar S)"
  "c1 (Langevin_init S lm)
   = (case integrator S of
        obabo \<Rightarrow> exp (- gamma (Langevin_init S lm) * 0.5 * dt S)
      | baoab \<Rightarrow> exp (- gamma (Langevin_init S lm) * dt S))"
  by (simp_all add: Langevin_init_def Let_def split: integrator_t.split)

lemma pile_mode_strict:
  assumes pile: "thermostat S = PILE_L \<or> thermostat S = PILE_G" and k0: "0 < k" and k: "k < np S"
    and ps: "0 < pilescale S" and w: "0 < omega_k (Langevin_init S lm) ! k"
  shows "0 < tau_k (Langevin_init S lm) ! k"
    and "0 < dt S \<Longrightarrow> 0 < c1_k (Langevin_init S lm) ! k \<and> c1_k (Langevin_init S lm) ! k < 1
                 \<and> 0 < c2_k (Langevin_init S lm) ! k"
proof -
  let ?L = "Langevin_init S lm"
  note p = Langevin_init_pile [OF pile k0 k, of lm]
  show t: "0 < tau_k ?L ! k" unfolding p(1) using ps w by simp
  assume d: "0 < dt S"
  have q: "0 < 0.5 * dt S / tau_k ?L ! k" "0 < dt S / tau_k ?L ! k"
    using d t by simp_all
  show "0 < c1_k ?L ! k \<and> c1_k ?L ! k < 1 \<and> 0 < c2_k ?L ! k"
  proof (cases "integrator S")
    case obabo
    then have e: "c1_k ?L ! k = exp (- (0.5 * dt S / tau_k ?L ! k))"
      by (subst p(2)) simp
    show ?thesis
      unfolding p(3) unfolding e by (rule exp_neg_strict [OF q(1)])
  next
    case baoab
    then have e: "c1_k ?L ! k = exp (- (dt S / tau_k ?L ! k))"
      by (subst p(2)) simp
    show ?thesis
      unfolding p(3) unfolding e by (rule exp_neg_strict [OF q(2)])
  qed
qed

lemma pile_atoms_snd: "snd (pile_atoms c1k c2k b mass g n as) = n + 3 * length as"
  by (induction as arbitrary: n) (simp_all add: Let_def case_prod_beta)

lemma pile_atoms_length: "length (fst (pile_atoms c1k c2k b mass g n as)) = length as"
  by (induction as arbitrary: n) (simp_all add: Let_def case_prod_beta)

lemma pile_atoms_coord:
  assumes "i < length as" "d < 3"
  shows "coord (atom_v (fst (pile_atoms c1k c2k b mass g n as) ! i)) d
         = c1k * coord (atom_v (as ! i)) d
           + c2k * sqrt (1 / mass (atom_type (as ! i)) / b) * g (n + 3 * i + d)"
  using assms
proof (induction as arbitrary: n i)
  case Nil
  then show ?case by simp
next
  case (Cons a as)
  show ?case
  proof (cases i)
    case 0
    have "d = 0 \<or> d = 1 \<or> d = 2" using Cons.prems(2) by arith
    then show ?thesis using 0
      by (auto simp: Let_def coord_def case_prod_beta)
  next
    case (Suc j)
    then have j: "j < length as" using Cons.prems(1) by simp
    have e: "n + 3 + 3 * j + d = n + 3 * Suc j + d" by simp
    show ?thesis using Suc Cons.IH [OF j Cons.prems(2), of "n + 3"]
      by (simp add: Let_def case_prod_beta e del: mult_Suc_right)
  qed
qed

text \<open>
  C5. Under the PILE\_L thermostat one \<^verbatim>\<open>o_step\<close> on replica \<open>k\<close> replaces every velocity
  coordinate \<open>d\<close> of every local atom \<open>i\<close> by
  \<open>c1_k[k] * v + c2_k[k] * sqrt (1 / (m * \<beta>)) * \<xi>\<close>, where \<open>m\<close> is the mass of the atom's type,
  \<open>\<beta>\<close> the \<^verbatim>\<open>beta_np\<close> of \<^verbatim>\<open>o_step\<close> and \<open>\<xi>\<close> a draw of its own from the generator (draw
  number \<open>3 i + d\<close> after the read position; the position advances by three per atom).
  For a replica \<open>k > 0\<close> the coefficients stored by \<^verbatim>\<open>Langevin_init\<close> are built from the
  mode's frequency, which is \<open>np * kB * T / hbar\<close> times \<open>sqrt (lam[k])\<close> for physical masses
  and \<open>np * kB * T / hbar\<close> for normal-mode masses:
  \<open>tau_k[k] = 1 / (2 * pilescale * omega_k[k])\<close>, \<open>c1_k[k] = exp (- dt / (2 * tau_k[k]))\<close> for
  OBABO and \<open>exp (- dt / tau_k[k])\<close> for BAOAB, and \<open>c2_k[k] = sqrt (1 - c1_k[k]\<^sup>2)\<close>. For a
  positive scale, temperature, Planck constant and eigenvalue the frequency and the
  relaxation time are positive, and for a positive time step \<open>0 < c1_k[k] < 1\<close> and
  \<open>0 < c2_k[k]\<close>: the step damps the velocity and adds noise. On the centroid replica the
  pair is the one built from \<^verbatim>\<open>gamma\<close>. That the draws are independent and standard
  normal is a property of the generator, outside the model.
\<close>

theorem o_step_PILE_L_update:
  assumes "thermostat S = PILE_L" and "k < np S" and "i < length as" and "d < 3"
  shows "coord (atom_v (fst (o_step_PILE_L S (Langevin_init S lm) mass k g n as) ! i)) d
           = c1_k (Langevin_init S lm) ! k * coord (atom_v (as ! i)) d
             + c2_k (Langevin_init S lm) ! k
               * sqrt (1 / (mass (atom_type (as ! i))
                            * (1 / boltz S / Lan_temp S / real (np S) * mvv2e S)))
               * g (n + 3 * i + d)
         \<and> snd (o_step_PILE_L S (Langevin_init S lm) mass k g n as) = n + 3 * length as
         \<and> (0 < k \<longrightarrow>
              omega_k (Langevin_init S lm) ! k
                = (case fmmode S of
                     physical \<Rightarrow> real (np S) * (boltz S * Lan_temp S) / hbar S * sqrt (lm ! k)
                   | normal \<Rightarrow> real (np S) * (boltz S * Lan_temp S) / hbar S)
              \<and> tau_k (Langevin_init S lm) ! k
                = 1 / (2 * pilescale S * omega_k (Langevin_init S lm) ! k)
              \<and> c1_k (Langevin_init S lm) ! k
                = (case integrator S of
                     obabo \<Rightarrow> exp (- dt S / (2 * tau_k (Langevin_init S lm) ! k))
                   | baoab \<Rightarrow> exp (- dt S / tau_k (Langevin_init S lm) ! k))
              \<and> c2_k (Langevin_init S lm) ! k = sqrt (1 - (c1_k (Langevin_init S lm) ! k)\<^sup>2)
              \<and> (0 < pilescale S \<and> 0 < boltz S * Lan_temp S \<and> 0 < hbar S
                   \<and> (fmmode S = physical \<longrightarrow> 0 < lm ! k) \<longrightarrow>
                  0 < omega_k (Langevin_init S lm) ! k \<and> 0 < tau_k (Langevin_init S lm) ! k
                  \<and> (0 < dt S \<longrightarrow>
                       0 < c1_k (Langevin_init S lm) ! k \<and> c1_k (Langevin_init S lm) ! k < 1
                       \<and> 0 < c2_k (Langevin_init S lm) ! k)))
         \<and> (k = 0 \<longrightarrow>
              tau_k (Langevin_init S lm) ! k = tau S
              \<and> gamma (Langevin_init S lm)
                  = (if tau S > 0 then 1 / tau S
                     else real (np S) * (boltz S * Lan_temp S) / hbar S)
              \<and> c1_k (Langevin_init S lm) ! k
                  = (case integrator S of
                       obabo \<Rightarrow> exp (- gamma (Langevin_init S lm) * 0.5 * dt S)
                     | baoab \<Rightarrow> exp (- gamma (Langevin_init S lm) * dt S))
              \<and> c2_k (Langevin_init S lm) ! k = sqrt (1 - (c1_k (Langevin_init S lm) ! k)\<^sup>2))"
proof -
  let ?L = "Langevin_init S lm"
  have pile: "thermostat S = PILE_L \<or> thermostat S = PILE_G" using assms(1) by simp
  have a: "coord (atom_v (fst (o_step_PILE_L S ?L mass k g n as) ! i)) d
           = c1_k ?L ! k * coord (atom_v (as ! i)) d
             + c2_k ?L ! k
               * sqrt (1 / (mass (atom_type (as ! i))
                            * (1 / boltz S / Lan_temp S / real (np S) * mvv2e S)))
               * g (n + 3 * i + d)"
    unfolding o_step_PILE_L_def Let_def pile_atoms_coord [OF assms(3) assms(4)]
    by (simp only: divide_divide_eq_left)
  have b: "snd (o_step_PILE_L S ?L mass k g n as) = n + 3 * length as"
    by (simp add: o_step_PILE_L_def pile_atoms_snd)
  note om = Langevin_init_omega [OF assms(2), of lm]
  have c: "tau_k ?L ! k = 1 / (2 * pilescale S * omega_k ?L ! k)
           \<and> c1_k ?L ! k = (case integrator S of
                     obabo \<Rightarrow> exp (- dt S / (2 * tau_k ?L ! k))
                   | baoab \<Rightarrow> exp (- dt S / tau_k ?L ! k))
           \<and> c2_k ?L ! k = sqrt (1 - (c1_k ?L ! k)\<^sup>2)" if "0 < k"
  proof -
    note p = Langevin_init_pile [OF pile that assms(2), of lm]
    have t: "tau_k ?L ! k = 1 / (2 * pilescale S * omega_k ?L ! k)"
      unfolding p(1) by simp
    have c1: "c1_k ?L ! k = (case integrator S of
                     obabo \<Rightarrow> exp (- dt S / (2 * tau_k ?L ! k))
                   | baoab \<Rightarrow> exp (- dt S / tau_k ?L ! k))"
      by (subst p(2)) (simp split: integrator_t.split)
    have c2: "c2_k ?L ! k = sqrt (1 - (c1_k ?L ! k)\<^sup>2)"
      by (subst p(3)) (simp only: power2_eq_square)
    show ?thesis using t c1 c2 by blast
  qed
  have s: "0 < omega_k ?L ! k \<and> 0 < tau_k ?L ! k
           \<and> (0 < dt S \<longrightarrow> 0 < c1_k ?L ! k \<and> c1_k ?L ! k < 1 \<and> 0 < c2_k ?L ! k)"
    if k0: "0 < k"
      and h: "0 < pilescale S \<and> 0 < boltz S * Lan_temp S \<and> 0 < hbar S
              \<and> (fmmode S = physical \<longrightarrow> 0 < lm ! k)"
  proof -
    have w: "0 < omega_k ?L ! k"
      using Langevin_init_omega_pos [OF assms(2), of lm] h by blast
    have ps: "0 < pilescale S" using h by blast
    show ?thesis
      using w pile_mode_strict [OF pile k0 assms(2) ps w] by blast
  qed
  have z: "tau_k ?L ! k = tau S
           \<and> gamma ?L = (if tau S > 0 then 1 / tau S
                         else real (np S) * (boltz S * Lan_temp S) / hbar S)
           \<and> c1_k ?L ! k = (case integrator S of
                       obabo \<Rightarrow> exp (- gamma ?L * 0.5 * dt S)
                     | baoab \<Rightarrow> exp (- gamma ?L * dt S))
           \<and> c2_k ?L ! k = sqrt (1 - (c1_k ?L ! k)\<^sup>2)" if k: "k = 0"
  proof -
    note p = Langevin_init_pile0 [OF pile, of lm]
    have c2: "c2_k ?L ! 0 = sqrt (1 - (c1_k ?L ! 0)\<^sup>2)"
      unfolding p(2,3) Langevin_init_c1(2) by (simp only: power2_eq_square)
    have c1: "c1_k ?L ! 0 = (case integrator S of
                       obabo \<Rightarrow> exp (- gamma ?L * 0.5 * dt S)
                     | baoab \<Rightarrow> exp (- gamma ?L * dt S))"
      unfolding p(2) by (rule Langevin_init_gamma(2))
    show ?thesis unfolding k using p(1) Langevin_init_gamma(1) [of S lm] c1 c2 by blast
  qed
  show ?thesis using a b om c s z by blast
qed

text \<open>
  C10. For a positive time step and a positive relaxation time \<^verbatim>\<open>tau\<close>, the centroid pair
  that \<^verbatim>\<open>Langevin_init\<close> stores satisfies \<open>0 < c1 \<le> 1\<close> and \<open>c1\<^sup>2 + c2\<^sup>2 = 1\<close>; and under
  either PILE thermostat so does the pair \<open>c1_k[k]\<close>, \<open>c2_k[k]\<close> of every replica \<open>k\<close> whose
  relaxation time \<open>tau_k[k]\<close> is positive. The integrator is arbitrary, so both OBABO and
  BAOAB are covered.
\<close>

theorem Langevin_coefficients_normalised:
  assumes "0 < dt S" and "0 < tau S"
  shows "0 < c1 (Langevin_init S lm) \<and> c1 (Langevin_init S lm) \<le> 1
         \<and> (c1 (Langevin_init S lm))\<^sup>2 + (c2 (Langevin_init S lm))\<^sup>2 = 1
         \<and> ((thermostat S = PILE_L \<or> thermostat S = PILE_G) \<and> k < np S
              \<and> 0 < tau_k (Langevin_init S lm) ! k \<longrightarrow>
             0 < c1_k (Langevin_init S lm) ! k \<and> c1_k (Langevin_init S lm) ! k \<le> 1
             \<and> (c1_k (Langevin_init S lm) ! k)\<^sup>2 + (c2_k (Langevin_init S lm) ! k)\<^sup>2 = 1)"
proof -
  let ?L = "Langevin_init S lm"
  have g: "0 \<le> 1 / tau S * 0.5 * dt S" "0 \<le> 1 / tau S * dt S"
    using assms by simp_all
  have cen: "0 < c1 ?L \<and> c1 ?L \<le> 1 \<and> (c1 ?L)\<^sup>2 + (c2 ?L)\<^sup>2 = 1"
  proof (cases "integrator S")
    case obabo
    then have e: "c1 ?L = exp (- (1 / tau S * 0.5 * dt S))"
      using assms(2) by (simp add: Langevin_init_c1(1))
    show ?thesis
      unfolding Langevin_init_c1(2) unfolding e by (rule exp_neg_unit [OF g(1)])
  next
    case baoab
    then have e: "c1 ?L = exp (- (1 / tau S * dt S))"
      using assms(2) by (simp add: Langevin_init_c1(1))
    show ?thesis
      unfolding Langevin_init_c1(2) unfolding e by (rule exp_neg_unit [OF g(2)])
  qed
  have mode: "0 < c1_k ?L ! k \<and> c1_k ?L ! k \<le> 1 \<and> (c1_k ?L ! k)\<^sup>2 + (c2_k ?L ! k)\<^sup>2 = 1"
    if pile: "thermostat S = PILE_L \<or> thermostat S = PILE_G" and k: "k < np S"
      and t: "0 < tau_k ?L ! k"
  proof (cases "k = 0")
    case True
    then show ?thesis using cen Langevin_init_pile0 [OF pile, of lm] by simp
  next
    case False
    then have k0: "0 < k" by simp
    note p = Langevin_init_pile [OF pile k0 k, of lm]
    have q: "0 \<le> 0.5 * dt S / tau_k ?L ! k" "0 \<le> dt S / tau_k ?L ! k"
      using assms(1) t by simp_all
    show ?thesis
    proof (cases "integrator S")
      case obabo
      then have e: "c1_k ?L ! k = exp (- (0.5 * dt S / tau_k ?L ! k))"
        by (subst p(2)) simp
      show ?thesis
        unfolding p(3) unfolding e by (rule exp_neg_unit [OF q(1)])
    next
      case baoab
      then have e: "c1_k ?L ! k = exp (- (dt S / tau_k ?L ! k))"
        by (subst p(2)) simp
      show ?thesis
        unfolding p(3) unfolding e by (rule exp_neg_unit [OF q(2)])
    qed
  qed
  show ?thesis using cen mode by blast
qed

lemma init_dtv_half: "init_dtv S = dt S / 2"
  by (simp add: init_dtv_def split: integrator_t.split)

lemma qc_step_length: "length (qc_step S w k as) = length as"
  by (simp add: qc_step_def Let_def)

lemma qc_step_other_replica: "k \<noteq> 0 \<Longrightarrow> qc_step S w k as = as"
  by (simp add: qc_step_def)

lemma qc_step_centroid_coord:
  assumes "\<not> pextflag S" "i < length as" "d < 3"
  shows "coord (atom_x (qc_step S w 0 as ! i)) d
           = coord (atom_x (as ! i)) d + init_dtv S * coord (atom_v (as ! i)) d"
    and "atom_v (qc_step S w 0 as ! i) = atom_v (as ! i)"
  using assms
  by (auto simp: qc_step_def coord_def Let_def case_prod_beta)

lemma a_step_centroid: "a_step 0 L as = as"
  by (simp add: a_step_def)

text \<open>
  C1, as amended. One drift-and-rotate block \<^verbatim>\<open>qc_step(); a_step();\<close> of
  \<^verbatim>\<open>initial_integrate\<close> acts on every coordinate of every local atom as follows. On a
  replica \<open>k \<noteq> 0\<close>, with or without a barostat, it is exactly the rotation
  \<open>x' = cos \<theta> * x + (sin \<theta> / \<omega>) * v\<close>, \<open>v' = - \<omega> * sin \<theta> * x + cos \<theta> * v\<close> with
  \<open>\<theta> = \<omega> * dt / 2\<close>, where \<open>\<omega> = omega_k[k]\<close> is \<open>np * kB * T / hbar\<close> times \<open>sqrt (lam[k])\<close> for
  physical masses and \<open>np * kB * T / hbar\<close> for normal-mode masses, positive for a positive
  temperature, Planck constant and eigenvalue. On the centroid replica, when no barostat
  is active, the position drifts by half a time step, \<open>x' = x + v * (dt / 2)\<close>, and the
  velocity is unchanged.
\<close>

theorem A_block_closed_form:
  assumes "k < np S" and "i < length as" and "d < 3"
  shows "(k \<noteq> 0 \<longrightarrow>
            omega_k (Langevin_init S lm) ! k
              = (case fmmode S of
                   physical \<Rightarrow> real (np S) * (boltz S * Lan_temp S) / hbar S * sqrt (lm ! k)
                 | normal \<Rightarrow> real (np S) * (boltz S * Lan_temp S) / hbar S)
          \<and> (0 < boltz S * Lan_temp S \<and> 0 < hbar S \<and> (fmmode S = physical \<longrightarrow> 0 < lm ! k)
               \<longrightarrow> 0 < omega_k (Langevin_init S lm) ! k)
          \<and> coord (atom_x (a_step k (Langevin_init S lm) (qc_step S w k as) ! i)) d
              = cos (omega_k (Langevin_init S lm) ! k * dt S / 2) * coord (atom_x (as ! i)) d
                + sin (omega_k (Langevin_init S lm) ! k * dt S / 2)
                    / omega_k (Langevin_init S lm) ! k * coord (atom_v (as ! i)) d
          \<and> coord (atom_v (a_step k (Langevin_init S lm) (qc_step S w k as) ! i)) d
              = - omega_k (Langevin_init S lm) ! k
                    * sin (omega_k (Langevin_init S lm) ! k * dt S / 2) * coord (atom_x (as ! i)) d
                + cos (omega_k (Langevin_init S lm) ! k * dt S / 2) * coord (atom_v (as ! i)) d)
       \<and> (k = 0 \<and> \<not> pextflag S \<longrightarrow>
            coord (atom_x (a_step k (Langevin_init S lm) (qc_step S w k as) ! i)) d
              = coord (atom_x (as ! i)) d + coord (atom_v (as ! i)) d * (dt S / 2)
          \<and> coord (atom_v (a_step k (Langevin_init S lm) (qc_step S w k as) ! i)) d
              = coord (atom_v (as ! i)) d)"
proof -
  let ?L = "Langevin_init S lm"
  have rot: "coord (atom_x (a_step k ?L (qc_step S w k as) ! i)) d
              = cos (omega_k ?L ! k * dt S / 2) * coord (atom_x (as ! i)) d
                + sin (omega_k ?L ! k * dt S / 2) / omega_k ?L ! k * coord (atom_v (as ! i)) d
          \<and> coord (atom_v (a_step k ?L (qc_step S w k as) ! i)) d
              = - omega_k ?L ! k * sin (omega_k ?L ! k * dt S / 2) * coord (atom_x (as ! i)) d
                + cos (omega_k ?L ! k * dt S / 2) * coord (atom_v (as ! i)) d" if k: "k \<noteq> 0"
    unfolding qc_step_other_replica [OF k]
      a_step_coord [OF k assms(2) assms(3)] Langevin_init_angle [OF assms(1)]
    by simp
  have drift: "coord (atom_x (a_step k ?L (qc_step S w k as) ! i)) d
              = coord (atom_x (as ! i)) d + coord (atom_v (as ! i)) d * (dt S / 2)
          \<and> coord (atom_v (a_step k ?L (qc_step S w k as) ! i)) d = coord (atom_v (as ! i)) d"
    if k: "k = 0" and p: "\<not> pextflag S"
    unfolding k a_step_centroid
      qc_step_centroid_coord [OF p assms(2) assms(3)] init_dtv_half
    by simp
  note om = Langevin_init_omega [OF assms(1), of lm]
  have pos: "0 < omega_k ?L ! k"
    if "0 < boltz S * Lan_temp S \<and> 0 < hbar S \<and> (fmmode S = physical \<longrightarrow> 0 < lm ! k)"
    using Langevin_init_omega_pos [OF assms(1), of lm] that by blast
  show ?thesis using rot drift om pos by blast
qed

lemma sin_quarter_sq: "sin (pi / 4) * sin (pi / 4) = 1 / 2"
  by (simp add: sin_45 )

lemma lam_init_4: "lam_init 4 = [0, 2, 4, 2]"
proof -
  have u: "[0..<4] = [0, 1, 2, 3]"
    by code_simp
  have s1: "sin (pi / 4) * sin (pi / 4) = 1 / 2" by (rule sin_quarter_sq)
  have "sin (3 * pi / 4) = sin (pi - pi / 4)" by simp
  also have "\<dots> = sin (pi / 4)" by (rule sin_pi_minus)
  finally have s3: "sin (3 * pi / 4) = sin (pi / 4)" .
  have s2: "sin (2 * pi / 4) = 1" by simp
  have a1: "4 * sin (pi / 4) * sin (pi / 4) = 2" using s1 by simp
  show ?thesis
    unfolding lam_init_def u by (simp add: Let_def s3 s2 a1)
qed

text \<open>
  C1 as stated has the centroid drift by a whole time step, \<open>x' = x + v * dt\<close>, with the
  same \<open>dt\<close> as in \<open>\<theta> = \<omega> * dt / 2\<close>. With \<open>dt = 1\<close>, an atom at the origin with unit velocity
  is moved to \<open>1/2\<close>, not to \<open>1\<close>.
\<close>

theorem centroid_drift_counterexample:
  "coord (atom_x (a_step 0 (Langevin_init ex_settings (lam_init 4))
                    (qc_step ex_settings 0 0 [ex_atom]) ! 0)) 0
   \<noteq> coord (atom_x ex_atom) 0 + coord (atom_v ex_atom) 0 * dt ex_settings"
  by (simp add: a_step_def qc_step_def init_dtv_def ex_settings_def ex_atom_def coord_def)

lemma ex_nve_omega_k_1:
  "omega_k (Langevin_init ex_nve (lam (nmpimd_init 4 zero_matrix zero_matrix))) ! 1 = 4 * sqrt 2"
proof -
  have l: "lam (nmpimd_init 4 zero_matrix zero_matrix) = [0, 2, 4, 2]"
    by (simp add: nmpimd_init_def Let_def lam_init_4)
  have k: "(1::nat) < np ex_nve" by (simp add: ex_nve_def ex_settings_def)
  show ?thesis
    unfolding Langevin_init_omega [OF k] l by (simp add: ex_nve_def ex_settings_def)
qed

theorem A_block_closed_form_witness:
  "(1::nat) < np ex_nve \<and> \<not> pextflag ex_nve
   \<and> lam (nmpimd_init 4 zero_matrix zero_matrix) = [0, 2, 4, 2]
   \<and> omega_k (Langevin_init ex_nve (lam (nmpimd_init 4 zero_matrix zero_matrix))) ! 1 = 4 * sqrt 2
   \<and> 0 < omega_k (Langevin_init ex_nve (lam (nmpimd_init 4 zero_matrix zero_matrix))) ! 1
   \<and> coord (atom_x (a_step 1 (Langevin_init ex_nve (lam (nmpimd_init 4 zero_matrix zero_matrix)))
                      (qc_step ex_nve 0 1 [ex_atom2]) ! 0)) 0
        = cos (2 * sqrt 2) * 1 + sin (2 * sqrt 2) / (4 * sqrt 2) * 4
   \<and> coord (atom_v (a_step 1 (Langevin_init ex_nve (lam (nmpimd_init 4 zero_matrix zero_matrix)))
                      (qc_step ex_nve 0 1 [ex_atom2]) ! 0)) 0
        = - (4 * sqrt 2) * sin (2 * sqrt 2) * 1 + cos (2 * sqrt 2) * 4
   \<and> coord (atom_x (a_step 0 (Langevin_init ex_nve (lam (nmpimd_init 4 zero_matrix zero_matrix)))
                      (qc_step ex_nve 0 0 [ex_atom2]) ! 0)) 0 = 3
   \<and> coord (atom_v (a_step 0 (Langevin_init ex_nve (lam (nmpimd_init 4 zero_matrix zero_matrix)))
                      (qc_step ex_nve 0 0 [ex_atom2]) ! 0)) 0 = 4"
proof -
  let ?lm = "lam (nmpimd_init 4 zero_matrix zero_matrix)"
  let ?L = "Langevin_init ex_nve ?lm"
  have h1: "(1::nat) < np ex_nve" by (simp add: ex_nve_def ex_settings_def)
  have h0: "(0::nat) < np ex_nve" by (simp add: ex_nve_def ex_settings_def)
  have h2: "\<not> pextflag ex_nve" by (simp add: ex_nve_def ex_settings_def)
  have h3: "(0::nat) < length [ex_atom2]" by simp
  have h4: "(0::nat) < 3" by simp
  have l: "?lm = [0, 2, 4, 2]"
    by (simp add: nmpimd_init_def Let_def lam_init_4)
  have k1: "(1::nat) \<noteq> 0" by simp
  have d: "dt ex_nve = 1" by (simp add: ex_nve_def ex_settings_def)
  have a: "coord (atom_x ([ex_atom2] ! 0)) 0 = 1" "coord (atom_v ([ex_atom2] ! 0)) 0 = 4"
    by (simp_all add: ex_atom2_def coord_def)
  have th: "4 * sqrt 2 * 1 / 2 = 2 * sqrt 2" by simp
  have ph: "0 < boltz ex_nve * Lan_temp ex_nve \<and> 0 < hbar ex_nve
            \<and> (fmmode ex_nve = physical \<longrightarrow> 0 < ?lm ! 1)"
    unfolding l by (simp add: ex_nve_def ex_settings_def)
  note t1 = A_block_closed_form [OF h1 h3 h4, of ?lm 0]
  note t0 = A_block_closed_form [OF h0 h3 h4, of ?lm 0]
  have w: "omega_k ?L ! 1 = 4 * sqrt 2" by (rule ex_nve_omega_k_1)
  have p: "0 < omega_k ?L ! 1" using t1 k1 ph by blast
  have r: "coord (atom_x (a_step 1 ?L (qc_step ex_nve 0 1 [ex_atom2]) ! 0)) 0
             = cos (omega_k ?L ! 1 * dt ex_nve / 2) * coord (atom_x ([ex_atom2] ! 0)) 0
               + sin (omega_k ?L ! 1 * dt ex_nve / 2) / omega_k ?L ! 1
                   * coord (atom_v ([ex_atom2] ! 0)) 0"
      "coord (atom_v (a_step 1 ?L (qc_step ex_nve 0 1 [ex_atom2]) ! 0)) 0
             = - omega_k ?L ! 1 * sin (omega_k ?L ! 1 * dt ex_nve / 2)
                   * coord (atom_x ([ex_atom2] ! 0)) 0
               + cos (omega_k ?L ! 1 * dt ex_nve / 2) * coord (atom_v ([ex_atom2] ! 0)) 0"
    using t1 k1 by blast+
  have c: "coord (atom_x (a_step 0 ?L (qc_step ex_nve 0 0 [ex_atom2]) ! 0)) 0
             = coord (atom_x ([ex_atom2] ! 0)) 0 + coord (atom_v ([ex_atom2] ! 0)) 0 * (dt ex_nve / 2)"
      "coord (atom_v (a_step 0 ?L (qc_step ex_nve 0 0 [ex_atom2]) ! 0)) 0
             = coord (atom_v ([ex_atom2] ! 0)) 0"
    using t0 h2 by blast+
  have r': "coord (atom_x (a_step 1 ?L (qc_step ex_nve 0 1 [ex_atom2]) ! 0)) 0
              = cos (2 * sqrt 2) * 1 + sin (2 * sqrt 2) / (4 * sqrt 2) * 4"
      "coord (atom_v (a_step 1 ?L (qc_step ex_nve 0 1 [ex_atom2]) ! 0)) 0
              = - (4 * sqrt 2) * sin (2 * sqrt 2) * 1 + cos (2 * sqrt 2) * 4"
    unfolding r w d a th by (rule refl)+
  have c': "coord (atom_x (a_step 0 ?L (qc_step ex_nve 0 0 [ex_atom2]) ! 0)) 0 = 3"
      "coord (atom_v (a_step 0 ?L (qc_step ex_nve 0 0 [ex_atom2]) ! 0)) 0 = 4"
    unfolding c d a by simp_all
  show ?thesis using h1 h2 l w p r' c' by blast
qed

lemma ex_tau_k_1: "tau_k (Langevin_init ex_settings [0, 2, 4, 2]) ! 1 = 0.5 / 1 / (4 * sqrt 2)"
proof -
  have p: "thermostat ex_settings = PILE_L \<or> thermostat ex_settings = PILE_G"
    by (simp add: ex_settings_def)
  have k: "(0::nat) < 1" "(1::nat) < np ex_settings" by (simp_all add: ex_settings_def)
  show ?thesis
    unfolding Langevin_init_pile(1) [OF p k] ex_omega_k_1 by (simp add: ex_settings_def)
qed

theorem Langevin_coefficients_normalised_witness:
  "0 < dt ex_settings \<and> 0 < tau ex_settings
   \<and> (thermostat ex_settings = PILE_L \<or> thermostat ex_settings = PILE_G)
   \<and> (1::nat) < np ex_settings \<and> 0 < tau_k (Langevin_init ex_settings [0, 2, 4, 2]) ! 1
   \<and> 0 < c1 (Langevin_init ex_settings [0, 2, 4, 2]) \<and> c1 (Langevin_init ex_settings [0, 2, 4, 2]) \<le> 1
   \<and> (c1 (Langevin_init ex_settings [0, 2, 4, 2]))\<^sup>2 + (c2 (Langevin_init ex_settings [0, 2, 4, 2]))\<^sup>2 = 1
   \<and> 0 < c1_k (Langevin_init ex_settings [0, 2, 4, 2]) ! 1
   \<and> c1_k (Langevin_init ex_settings [0, 2, 4, 2]) ! 1 \<le> 1
   \<and> (c1_k (Langevin_init ex_settings [0, 2, 4, 2]) ! 1)\<^sup>2
       + (c2_k (Langevin_init ex_settings [0, 2, 4, 2]) ! 1)\<^sup>2 = 1"
proof -
  have h1: "0 < dt ex_settings" by (simp add: ex_settings_def)
  have h2: "0 < tau ex_settings" by (simp add: ex_settings_def)
  have h3: "thermostat ex_settings = PILE_L \<or> thermostat ex_settings = PILE_G"
    by (simp add: ex_settings_def)
  have h4: "(1::nat) < np ex_settings" by (simp add: ex_settings_def)
  have h5: "0 < tau_k (Langevin_init ex_settings [0, 2, 4, 2]) ! 1"
    unfolding ex_tau_k_1 by simp
  show ?thesis
    using Langevin_coefficients_normalised [OF h1 h2, of "[0, 2, 4, 2]" 1] h1 h2 h3 h4 h5
    by blast
qed

theorem o_step_PILE_L_update_witness:
  "thermostat ex_settings = PILE_L \<and> (1::nat) < np ex_settings
   \<and> omega_k (Langevin_init ex_settings (lam (nmpimd_init 4 zero_matrix zero_matrix))) ! 1
       = 4 * sqrt 2
   \<and> tau_k (Langevin_init ex_settings (lam (nmpimd_init 4 zero_matrix zero_matrix))) ! 1
       = 1 / (8 * sqrt 2)
   \<and> c1_k (Langevin_init ex_settings (lam (nmpimd_init 4 zero_matrix zero_matrix))) ! 1
       = exp (- (4 * sqrt 2))
   \<and> c2_k (Langevin_init ex_settings (lam (nmpimd_init 4 zero_matrix zero_matrix))) ! 1
       = sqrt (1 - (exp (- (4 * sqrt 2)))\<^sup>2)
   \<and> 0 < c1_k (Langevin_init ex_settings (lam (nmpimd_init 4 zero_matrix zero_matrix))) ! 1
   \<and> c1_k (Langevin_init ex_settings (lam (nmpimd_init 4 zero_matrix zero_matrix))) ! 1 < 1
   \<and> 0 < c2_k (Langevin_init ex_settings (lam (nmpimd_init 4 zero_matrix zero_matrix))) ! 1
   \<and> coord (atom_v (fst (o_step_PILE_L ex_settings
                (Langevin_init ex_settings (lam (nmpimd_init 4 zero_matrix zero_matrix)))
                (\<lambda>t. 1) 1 (\<lambda>j. real j + 1) 0 [ex_atom2]) ! 0)) 1
       = exp (- (4 * sqrt 2)) * 5 + sqrt (1 - (exp (- (4 * sqrt 2)))\<^sup>2) * 2 * 2
   \<and> snd (o_step_PILE_L ex_settings
                (Langevin_init ex_settings (lam (nmpimd_init 4 zero_matrix zero_matrix)))
                (\<lambda>t. 1) 1 (\<lambda>j. real j + 1) 0 [ex_atom2]) = 3"
proof -
  let ?lm = "lam (nmpimd_init 4 zero_matrix zero_matrix)"
  let ?L = "Langevin_init ex_settings ?lm"
  have h1: "thermostat ex_settings = PILE_L" by (simp add: ex_settings_def)
  have h2: "(1::nat) < np ex_settings" by (simp add: ex_settings_def)
  have h3: "(0::nat) < length [ex_atom2]" by simp
  have h4: "(1::nat) < 3" by simp
  have k: "(0::nat) < 1" by simp
  have l: "?lm = [0, 2, 4, 2]"
    by (simp add: nmpimd_init_def Let_def lam_init_4)
  have ph: "0 < pilescale ex_settings \<and> 0 < boltz ex_settings * Lan_temp ex_settings
            \<and> 0 < hbar ex_settings \<and> (fmmode ex_settings = physical \<longrightarrow> 0 < ?lm ! 1)"
    unfolding l by (simp add: ex_settings_def)
  have d: "0 < dt ex_settings" by (simp add: ex_settings_def)
  note t = o_step_PILE_L_update [OF h1 h2 h3 h4, of ?lm "\<lambda>t. 1" "\<lambda>j. real j + 1" 0]
  have om: "omega_k ?L ! 1
            = (case fmmode ex_settings of
                 physical \<Rightarrow> real (np ex_settings) * (boltz ex_settings * Lan_temp ex_settings)
                               / hbar ex_settings * sqrt (?lm ! 1)
               | normal \<Rightarrow> real (np ex_settings) * (boltz ex_settings * Lan_temp ex_settings)
                             / hbar ex_settings)"
    using t k by blast
  have fm: "fmmode ex_settings = physical" "real (np ex_settings) = 4" "boltz ex_settings = 1"
    "Lan_temp ex_settings = 1" "hbar ex_settings = 1" "?lm ! 1 = 2"
    unfolding l by (simp_all add: ex_settings_def)
  have w: "omega_k ?L ! 1 = 4 * sqrt 2"
    unfolding om fm by simp
  have tk: "tau_k ?L ! 1 = 1 / (2 * pilescale ex_settings * omega_k ?L ! 1)"
    using t k by blast
  have tv: "tau_k ?L ! 1 = 1 / (8 * sqrt 2)"
    unfolding tk w by (simp add: ex_settings_def)
  have ck: "c1_k ?L ! 1
            = (case integrator ex_settings of
                 obabo \<Rightarrow> exp (- dt ex_settings / (2 * tau_k ?L ! 1))
               | baoab \<Rightarrow> exp (- dt ex_settings / tau_k ?L ! 1))"
    using t k by blast
  have cv: "c1_k ?L ! 1 = exp (- (4 * sqrt 2))"
    unfolding ck tv by (simp add: ex_settings_def)
  have c2: "c2_k ?L ! 1 = sqrt (1 - (c1_k ?L ! 1)\<^sup>2)"
    using t k by blast
  have c2v: "c2_k ?L ! 1 = sqrt (1 - (exp (- (4 * sqrt 2)))\<^sup>2)"
    unfolding c2 cv ..
  have st: "0 < c1_k ?L ! 1 \<and> c1_k ?L ! 1 < 1 \<and> 0 < c2_k ?L ! 1"
    using t k ph d by blast
  have u: "coord (atom_v (fst (o_step_PILE_L ex_settings ?L (\<lambda>t. 1) 1 (\<lambda>j. real j + 1) 0
                                 [ex_atom2]) ! 0)) 1
           = c1_k ?L ! 1 * coord (atom_v ([ex_atom2] ! 0)) 1
             + c2_k ?L ! 1
               * sqrt (1 / (1 * (1 / boltz ex_settings / Lan_temp ex_settings
                                   / real (np ex_settings) * mvv2e ex_settings)))
               * (real (0 + 3 * 0 + 1) + 1)"
    using t by blast
  have b: "sqrt (1 / (1 * (1 / boltz ex_settings / Lan_temp ex_settings
                             / real (np ex_settings) * mvv2e ex_settings))) = 2"
    by (simp add: ex_settings_def)
  have a: "coord (atom_v ([ex_atom2] ! 0)) 1 = 5" by (simp add: ex_atom2_def coord_def)
  have gv: "real (0 + 3 * 0 + 1) + 1 = 2" by simp
  have uv: "coord (atom_v (fst (o_step_PILE_L ex_settings ?L (\<lambda>t. 1) 1 (\<lambda>j. real j + 1) 0
                                 [ex_atom2]) ! 0)) 1
           = exp (- (4 * sqrt 2)) * 5 + sqrt (1 - (exp (- (4 * sqrt 2)))\<^sup>2) * 2 * 2"
    unfolding u cv c2v b a gv ..
  have sn: "snd (o_step_PILE_L ex_settings ?L (\<lambda>t. 1) 1 (\<lambda>j. real j + 1) 0 [ex_atom2])
            = 0 + 3 * length [ex_atom2]"
    using t by blast
  have snv: "snd (o_step_PILE_L ex_settings ?L (\<lambda>t. 1) 1 (\<lambda>j. real j + 1) 0 [ex_atom2]) = 3"
    unfolding sn by simp
  show ?thesis using h1 h2 w tv cv c2v st uv snv by blast
qed

section \<open>Energy and enthalpy\<close>

text \<open>
  C9, as amended. \<^verbatim>\<open>compute_tote\<close> sets the total energy to kinetic + potential + spring
  energy. With a barostat (\<^verbatim>\<open>pextflag\<close>) \<^verbatim>\<open>end_of_step\<close> also sets the enthalpy: for BZP to
  the total energy plus the reported piston kinetic energy \<open>0.5 W vw\<^sup>2\<close> divided by the
  number of replicas, plus \<open>Pext * V / nktv2p\<close>, minus \<open>Vcoeff * kB * T * ln V\<close>; for MTTK to
  the total energy plus three times the piston kinetic energy divided by the number of
  replicas, plus \<open>Pext * (V - V0)\<close>. Without a barostat the enthalpy is not written.
\<close>

theorem energy_estimators:
  "tote (compute_tote p) = totke p + pote p + total_spring_energy p
   \<and> (pextflag S \<longrightarrow>
        tote (end_of_step_energies S p) = totke p + pote p + total_spring_energy p
        \<and> totenthalpy (end_of_step_energies S p)
            = (case barostat S of
                 BZP \<Rightarrow> (totke p + pote p + total_spring_energy p)
                          + piston_kinetic_energy S p / real (np S)
                          + Pext S * volume_of p / nktv2p S
                          - init_Vcoeff * init_kBT S * ln (volume_of p)
               | MTTK \<Rightarrow> (totke p + pote p + total_spring_energy p)
                          + 3 * piston_kinetic_energy S p / real (np S)
                          + Pext S * (volume_of p - vol0 S)))
   \<and> (\<not> pextflag S \<longrightarrow>
        tote (end_of_step_energies S p) = totke p + pote p + total_spring_energy p
        \<and> totenthalpy (end_of_step_energies S p) = totenthalpy p)"
  by (simp add: compute_tote_def end_of_step_energies_def compute_totenthalpy_def Let_def
      piston_kinetic_energy_def volume_of_def split: barostat_t.split)

lemma ex_npt_W: "init_W ex_npt = 12"
  by (simp add: init_W_def init_kBT_def ex_npt_def ex_settings_def)

theorem energy_estimators_witness:
  "pextflag ex_npt
   \<and> tote (compute_tote ex_proc) = totke ex_proc + pote ex_proc + total_spring_energy ex_proc
   \<and> tote (end_of_step_energies ex_npt ex_proc)
       = totke ex_proc + pote ex_proc + total_spring_energy ex_proc
   \<and> totenthalpy (end_of_step_energies ex_npt ex_proc)
       = (case barostat ex_npt of
            BZP \<Rightarrow> (totke ex_proc + pote ex_proc + total_spring_energy ex_proc)
                     + piston_kinetic_energy ex_npt ex_proc / real (np ex_npt)
                     + Pext ex_npt * volume_of ex_proc / nktv2p ex_npt
                     - init_Vcoeff * init_kBT ex_npt * ln (volume_of ex_proc)
          | MTTK \<Rightarrow> (totke ex_proc + pote ex_proc + total_spring_energy ex_proc)
                     + 3 * piston_kinetic_energy ex_npt ex_proc / real (np ex_npt)
                     + Pext ex_npt * (volume_of ex_proc - vol0 ex_npt))"
proof -
  have h: "pextflag ex_npt" by (simp add: ex_npt_def)
  show ?thesis using energy_estimators [of ex_proc ex_npt] h by blast
qed

text \<open>
  C9 as stated adds the piston kinetic energy itself and, for BZP, \<open>Pext * V\<close>. With four
  replicas, \<open>W = 12\<close>, \<open>vw = 1\<close> and a unit box the code gives \<open>5/2\<close> (BZP) and \<open>9/2\<close> (MTTK),
  the sum in the specification's wording \<open>7\<close> and \<open>6\<close>.
\<close>

theorem enthalpy_counterexample:
  "totenthalpy (end_of_step_energies ex_npt ex_proc) \<noteq> spec_enthalpy ex_npt (compute_tote ex_proc)
   \<and> totenthalpy (end_of_step_energies (ex_npt\<lparr>barostat := MTTK\<rparr>) ex_proc)
       \<noteq> spec_enthalpy (ex_npt\<lparr>barostat := MTTK\<rparr>) (compute_tote ex_proc)"
  by (simp add: end_of_step_energies_def compute_totenthalpy_def compute_tote_def
      spec_enthalpy_def piston_kinetic_energy_def Let_def init_W_def init_kBT_def init_Vcoeff_def
      ex_npt_def ex_settings_def ex_proc_def)

section \<open>Removal of the centre-of-mass motion\<close>

lemma no_removal_when_flag_off:
  assumes "\<not> removecomflag S"
  shows "Remove_com_motion \<notin> set (initial_integrate S)"
    and "Remove_com_motion \<notin> set (final_integrate S)"
  using assms
  by (auto simp: initial_integrate_def final_integrate_def thermostat_block_def
      split: integrator_t.splits if_splits)

lemma removal_after_each_obabo:
  assumes "removecomflag S" "integrator S = obabo"
  shows "com_removed_after_each (initial_integrate S)"
    and "com_removed_after_each (final_integrate S)"
  using assms
  by (simp_all add: initial_integrate_def final_integrate_def thermostat_block_def
      changes_velocity_def)

text \<open>In BAOAB the kick of \<^verbatim>\<open>initial_integrate\<close> is followed by the transform or the
  drift, whatever the flag is.\<close>

lemma baoab_first_kick_not_followed:
  assumes "integrator S = baoab"
  shows "\<not> com_removed_after_each (initial_integrate S)"
  using assms
  by (simp add: initial_integrate_def thermostat_block_def changes_velocity_def)

lemma remove_com_motion_other_replica: "k \<noteq> 0 \<Longrightarrow> remove_com_motion k vcm as = as"
  by (simp add: remove_com_motion_def)

text \<open>
  C7. The specification has \<^verbatim>\<open>fixcom yes\<close> switch the removal of the centre-of-mass motion on
  and \<^verbatim>\<open>fixcom no\<close> switch it off. The constructor does the opposite: after
  \<^verbatim>\<open>fixcom yes\<close> the flag is unset and neither \<^verbatim>\<open>initial_integrate\<close> nor
  \<^verbatim>\<open>final_integrate\<close> calls \<^verbatim>\<open>remove_com_motion\<close>; after \<^verbatim>\<open>fixcom no\<close> the flag is set and
  the calls are made. The neighbouring keyword \<^verbatim>\<open>map\<close> has the usual polarity.
\<close>

theorem fixcom_yes_disables_removal:
  "\<not> fixcom_keyword ''yes'' removecomflag_default
   \<and> Remove_com_motion \<notin> set (initial_integrate
        (ex_settings\<lparr>removecomflag := fixcom_keyword ''yes'' removecomflag_default\<rparr>))
   \<and> Remove_com_motion \<notin> set (final_integrate
        (ex_settings\<lparr>removecomflag := fixcom_keyword ''yes'' removecomflag_default\<rparr>))
   \<and> fixcom_keyword ''no'' removecomflag_default
   \<and> Remove_com_motion \<in> set (initial_integrate
        (ex_settings\<lparr>removecomflag := fixcom_keyword ''no'' removecomflag_default\<rparr>))
   \<and> map_keyword ''yes'' False \<and> \<not> map_keyword ''no'' True"
  by (simp add: fixcom_keyword_def map_keyword_def removecomflag_default_def
      initial_integrate_def final_integrate_def thermostat_block_def ex_settings_def)

section \<open>The piston velocity\<close>

lemma bzp_kick_fields:
  "atoms (bzp_kick S p) = atoms p"
  "vw (bzp_kick S p) = vw p + dt S / 2 * 3 *
         (volume_of p * real (np S) * (p_cv p - Pext S) / nktv2p S + init_Vcoeff / init_beta_np S)
         / init_W S"
  by (simp_all add: bzp_kick_def init_dtv_half)

lemma dvw_sum_kick:
  "sum_list (map (\<lambda>p. dvw_proc S mass (atoms p)) (map (bzp_kick S) ps))
   = sum_list (map (\<lambda>p. dvw_proc S mass (atoms p)) ps)"
  by (simp add: comp_def bzp_kick_fields(1))

lemma press_v_step_BZP_root:
  assumes "barostat S = BZP" "G \<noteq> []" "G ! 0 \<noteq> []" "r < length G" "s < length (G ! r)"
  shows "vw (press_v_step S mass G ! r ! s)
         = vw (bzp_kick S (G ! 0 ! 0)) + sum_list (map (\<lambda>p. dvw_proc S mass (atoms p)) (G ! 0))"
proof -
  let ?G1 = "map (map (bzp_kick S)) G"
  let ?dvw = "sum_list (map (\<lambda>p. dvw_proc S mass (atoms p)) (?G1 ! 0))"
  let ?G2 = "?G1[0 := map (\<lambda>p. p\<lparr>vw := vw p + ?dvw\<rparr>) (?G1 ! 0)]"
  have l0: "0 < length G" "0 < length (G ! 0)" using assms(2,3) by simp_all
  have g10: "?G1 ! 0 = map (bzp_kick S) (G ! 0)" using l0 by simp
  have dvw: "?dvw = sum_list (map (\<lambda>p. dvw_proc S mass (atoms p)) (G ! 0))"
    unfolding g10 by (rule dvw_sum_kick)
  have len2: "length ?G2 = length G" by simp
  have lenr: "length (?G2 ! r) = length (G ! r)"
    using assms(4) by (cases r) simp_all
  have root: "vw (?G2 ! 0 ! 0) = vw (bzp_kick S (G ! 0 ! 0)) + ?dvw"
    using l0 by simp
  have "press_v_step S mass G = map (map (\<lambda>p. p\<lparr>vw := vw (?G2 ! 0 ! 0)\<rparr>)) ?G2"
    using assms(1) by (simp add: press_v_step_def Let_def)
  then have "vw (press_v_step S mass G ! r ! s) = vw (?G2 ! 0 ! 0)"
    using assms(4,5) len2 lenr by simp
  with root dvw show ?thesis by simp
qed

text \<open>
  C6, as amended. With the BZP barostat, after \<^verbatim>\<open>press_v_step\<close> every process of every
  replica holds the same piston velocity: the one universe rank 0 held before, plus
  \<open>(dt / 2) * 3 * (V * P * (p_cv - Pext) / nktv2p + Vcoeff / beta_np) / W\<close> evaluated on rank
  0, plus the force-dependent correction \<^verbatim>\<open>dvw_proc\<close> summed over the processes of the
  centroid replica only. After \<^verbatim>\<open>press_o_step\<close> every process holds
  \<open>c1 * vw + c2 * sqrt (1 / W / beta_np) * r1\<close> computed from the velocity and the draw of
  universe rank 0.
\<close>

theorem press_v_step_BZP:
  assumes "barostat S = BZP" and "G \<noteq> []" and "G ! 0 \<noteq> []"
    and "r < length G" and "s < length (G ! r)"
  shows "vw (press_v_step S mass G ! r ! s)
           = vw (G ! 0 ! 0)
             + dt S / 2 * 3 *
                 (volume_of (G ! 0 ! 0) * real (np S) * (p_cv (G ! 0 ! 0) - Pext S) / nktv2p S
                  + init_Vcoeff / init_beta_np S) / init_W S
             + sum_list (map (\<lambda>p. dvw_proc S mass (atoms p)) (G ! 0))
         \<and> vw (press_o_step S L r1 G ! r ! s)
           = c1 L * vw (G ! 0 ! 0) + c2 L * sqrt (1 / init_W S / init_beta_np S) * r1"
proof -
  have a: "vw (press_v_step S mass G ! r ! s)
           = vw (G ! 0 ! 0)
             + dt S / 2 * 3 *
                 (volume_of (G ! 0 ! 0) * real (np S) * (p_cv (G ! 0 ! 0) - Pext S) / nktv2p S
                  + init_Vcoeff / init_beta_np S) / init_W S
             + sum_list (map (\<lambda>p. dvw_proc S mass (atoms p)) (G ! 0))"
    unfolding press_v_step_BZP_root [OF assms] bzp_kick_fields(2) ..
  have b: "vw (press_o_step S L r1 G ! r ! s)
           = c1 L * vw (G ! 0 ! 0) + c2 L * sqrt (1 / init_W S / init_beta_np S) * r1"
    using assms(4,5) by (simp add: press_o_step_def Let_def)
  show ?thesis using a b by blast
qed

lemma dvw_proc_ex: "dvw_proc S mass [ex_atom] = 0"
proof -
  have u: "[0..<3] = [0, 1, 2]" by code_simp
  show ?thesis unfolding dvw_proc_def u by (simp add: ex_atom_def coord_def)
qed

lemma ex_npt_consts:
  "init_W ex_npt = 12" "init_beta_np ex_npt = 1 / 4" "init_dtv ex_npt = 1 / 2"
  "np ex_npt = 4" "Pext ex_npt = 1" "nktv2p ex_npt = 1" "barostat ex_npt = BZP" "dt ex_npt = 1"
  by (simp_all add: init_W_def init_kBT_def init_beta_np_def init_dtv_def ex_npt_def ex_settings_def)

theorem press_v_step_BZP_witness:
  "barostat ex_npt = BZP \<and> ex_grid \<noteq> [] \<and> ex_grid ! 0 \<noteq> [] \<and> 1 < length ex_grid
   \<and> 0 < length (ex_grid ! 1)
   \<and> vw (press_v_step ex_npt (\<lambda>t. 1) ex_grid ! 1 ! 0)
       = vw (ex_grid ! 0 ! 0)
         + dt ex_npt / 2 * 3 *
             (volume_of (ex_grid ! 0 ! 0) * real (np ex_npt) * (p_cv (ex_grid ! 0 ! 0) - Pext ex_npt)
                / nktv2p ex_npt
              + init_Vcoeff / init_beta_np ex_npt) / init_W ex_npt
         + sum_list (map (\<lambda>p. dvw_proc ex_npt (\<lambda>t. 1) (atoms p)) (ex_grid ! 0))
   \<and> vw (press_o_step ex_npt (Langevin_init ex_npt [0, 2, 4, 2]) 1 ex_grid ! 1 ! 0)
       = c1 (Langevin_init ex_npt [0, 2, 4, 2]) * vw (ex_grid ! 0 ! 0)
         + c2 (Langevin_init ex_npt [0, 2, 4, 2]) * sqrt (1 / init_W ex_npt / init_beta_np ex_npt) * 1"
proof -
  have h1: "barostat ex_npt = BZP" by (rule ex_npt_consts(7))
  have h2: "ex_grid \<noteq> []" by (simp add: ex_grid_def)
  have h3: "ex_grid ! 0 \<noteq> []" by (simp add: ex_grid_def)
  have h4: "1 < length ex_grid" by (simp add: ex_grid_def)
  have h5: "0 < length (ex_grid ! 1)" by (simp add: ex_grid_def)
  show ?thesis
    using press_v_step_BZP [OF h1 h2 h3 h4 h5, of "\<lambda>t. 1" "Langevin_init ex_npt [0, 2, 4, 2]" 1]
      h1 h2 h3 h4 h5
    by blast
qed

text \<open>Whatever the piston-coupling term of the specification's formula is, the formula
  changes with the pressure at the rate \<open>h * 3 * V * P / nktv / W\<close>.\<close>

lemma spec_piston_kick_slope:
  "spec_piston_kick h V P p1 pext nktv T W - spec_piston_kick h V P p0 pext nktv T W
   = h * (3 * V * P * (p1 - p0) / nktv) / W"
proof -
  have d: "a / nktv - b / nktv = (a - b) / nktv" for a b :: real
    by (simp add: diff_divide_distrib)
  have e: "3 * (V * P * (p1 - pext)) / nktv + T - (3 * (V * P * (p0 - pext)) / nktv + T)
           = 3 * V * P * (p1 - p0) / nktv"
    by (simp add: d) (simp add: algebra_simps)
  have "h * x / W - h * y / W = h * (x - y) / W" for x y :: real
    by (simp add: diff_divide_distrib right_diff_distrib)
  then show ?thesis
    unfolding spec_piston_kick_def by (simp only: e)
qed

text \<open>
  C6 as stated has the whole time step \<open>dt\<close> in front of the bracket. With \<open>dt = 1\<close> the
  code's update differs from the specification's formula, also when the piston-coupling term
  is read as the code's own \<open>3 * Vcoeff / beta_np\<close>; and raising \<open>p_cv\<close> from 2 to 3 changes
  the code's result by \<open>1/2\<close>, the formula's by \<open>1\<close> for any coupling term.
\<close>

theorem piston_kick_counterexample:
  "vw (press_v_step ex_npt (\<lambda>t. 1) [[ex_proc]] ! 0 ! 0)
     \<noteq> vw ex_proc
        + spec_piston_kick (dt ex_npt) (volume_of ex_proc) (real (np ex_npt)) (p_cv ex_proc)
            (Pext ex_npt) (nktv2p ex_npt) (3 * init_Vcoeff / init_beta_np ex_npt) (init_W ex_npt)
        + sum_list (map (\<lambda>p. dvw_proc ex_npt (\<lambda>t. 1) (atoms p)) [ex_proc])
   \<and> vw (press_v_step ex_npt (\<lambda>t. 1) [[ex_proc\<lparr>p_cv := 3\<rparr>]] ! 0 ! 0)
       - vw (press_v_step ex_npt (\<lambda>t. 1) [[ex_proc]] ! 0 ! 0)
     \<noteq> spec_piston_kick (dt ex_npt) (volume_of ex_proc) (real (np ex_npt)) 3
            (Pext ex_npt) (nktv2p ex_npt) 0 (init_W ex_npt)
        - spec_piston_kick (dt ex_npt) (volume_of ex_proc) (real (np ex_npt)) (p_cv ex_proc)
            (Pext ex_npt) (nktv2p ex_npt) 0 (init_W ex_npt)"
proof -
  have g: "[[q]] \<noteq> []" "[[q]] ! 0 \<noteq> []" "0 < length [[q]]" "0 < length ([[q]] ! 0)" for q :: proc
    by simp_all
  have v: "vw (press_v_step ex_npt (\<lambda>t. 1) [[q]] ! 0 ! 0)
           = vw (bzp_kick ex_npt q) + dvw_proc ex_npt (\<lambda>t. 1) (atoms q)" for q
    unfolding press_v_step_BZP_root [OF ex_npt_consts(7) g] by simp
  have a: "vw (press_v_step ex_npt (\<lambda>t. 1) [[ex_proc]] ! 0 ! 0) = 2"
    unfolding v by (simp add: bzp_kick_def ex_npt_consts volume_of_def init_Vcoeff_def ex_proc_def dvw_proc_ex)
  have b: "vw (press_v_step ex_npt (\<lambda>t. 1) [[ex_proc\<lparr>p_cv := 3\<rparr>]] ! 0 ! 0) = 5 / 2"
    unfolding v by (simp add: bzp_kick_def ex_npt_consts volume_of_def init_Vcoeff_def ex_proc_def dvw_proc_ex)
  have p: "volume_of ex_proc = 1" "p_cv ex_proc = 2" "vw ex_proc = 1" "atoms ex_proc = [ex_atom]"
    by (simp_all add: volume_of_def ex_proc_def)
  show ?thesis
    unfolding a b spec_piston_kick_slope
    by (simp add: spec_piston_kick_def ex_npt_consts p init_Vcoeff_def dvw_proc_ex)
qed

section \<open>The bead exchange\<close>

lemma concat_uniform_length:
  "length (concat (map (\<lambda>i. map (F i) [0..<n]) [0..<m])) = m * n"
  by (induction m) simp_all

lemma concat_uniform_nth:
  assumes "k < m * n"
  shows "concat (map (\<lambda>i. map (F i) [0..<n]) [0..<m]) ! k = F (k div n) (k mod n)"
  using assms
proof (induction m)
  case 0
  then show ?case by simp
next
  case (Suc m)
  show ?case
  proof (cases "k < m * n")
    case True
    then show ?thesis using Suc.IH
      by (simp add: nth_append concat_uniform_length)
  next
    case False
    then have ge: "m * n \<le> k" by simp
    have lt: "k - m * n < n" using Suc.prems ge by simp
    have n0: "0 < n" using lt by simp
    have d: "k div n = m"
      using ge Suc.prems by (intro div_nat_eqI) (simp_all add: mult.commute)
    have dm: "k div n = m" "k mod n = k - m * n"
      using d by (simp_all add: modulo_nat_def)
    show ?thesis using False lt dm
      by (simp add: nth_append concat_uniform_length)
  qed
qed

lemma plan_lengths:
  "length (plan_send P ncomms iworld me) = (P - 1) * ncomms"
  "length (mode_index P ncomms iworld) = (P - 1) * ncomms"
  by (simp_all add: plan_send_def mode_index_def concat_uniform_length)

lemma plan_send_peer:
  assumes "iplan < length (plan_send P ncomms iworld me)"
  shows "\<exists>s<ncomms. plan_send P ncomms iworld me ! iplan
                      = (mode_index P ncomms iworld ! iplan) * ncomms + s"
proof -
  have k: "iplan < (P - 1) * ncomms" using assms by (simp add: plan_lengths)
  then have n0: "0 < ncomms" by (cases ncomms) simp_all
  have a: "plan_send P ncomms iworld me ! iplan
           = ((iworld + iplan div ncomms + 1) mod P) * ncomms + (me + iplan mod ncomms) mod ncomms"
    unfolding plan_send_def by (rule concat_uniform_nth [OF k])
  have b: "mode_index P ncomms iworld ! iplan = (iworld + iplan div ncomms + 1) mod P"
    unfolding mode_index_def by (rule concat_uniform_nth [OF k])
  have c: "(me + iplan mod ncomms) mod ncomms < ncomms" using n0 by simp
  show ?thesis
    unfolding a b by (rule exI [of _ "(me + iplan mod ncomms) mod ncomms"]) (simp add: c)
qed

text \<open>The peer that a process sends to in a plan entry receives from that process in the
  same entry: the reply a process gets in an entry is the search of its own tags by
  \<^verbatim>\<open>plan_send[iplan]\<close>.\<close>

lemma plan_recv_matches_plan_send:
  assumes "iworld < P" and "me < ncomms" and "iplan < (P - 1) * ncomms"
  shows "plan_recv P ncomms (plan_send P ncomms iworld me ! iplan div ncomms)
           (plan_send P ncomms iworld me ! iplan mod ncomms) ! iplan
         = iworld * ncomms + me"
proof -
  let ?i = "iplan div ncomms" and ?j = "iplan mod ncomms"
  have n0: "0 < ncomms" using assms(2) by simp
  have i: "?i < P - 1" using assms(3) n0 by (simp add: less_mult_imp_div_less)
  have j: "?j < ncomms" using n0 by simp
  let ?w = "(iworld + ?i + 1) mod P" and ?m = "(me + ?j) mod ncomms"
  have m: "?m < ncomms" using n0 by simp
  have ps: "plan_send P ncomms iworld me ! iplan = ?w * ncomms + ?m"
    unfolding plan_send_def by (rule concat_uniform_nth [OF assms(3)])
  have dv: "(?w * ncomms + ?m) div ncomms = ?w" "(?w * ncomms + ?m) mod ncomms = ?m"
    using m by simp_all
  have pr: "plan_recv P ncomms ?w ?m ! iplan
            = ((?w + P - ?i - 1) mod P) * ncomms + (?m + ncomms - ?j) mod ncomms"
    unfolding plan_recv_def by (rule concat_uniform_nth [OF assms(3)])
  have "?w + P - ?i - 1 = ?w + (P - (?i + 1))" using i by simp
  also have "\<dots> mod P = (iworld + ?i + 1 + (P - (?i + 1))) mod P"
    by (simp only: mod_add_left_eq)
  also have "iworld + ?i + 1 + (P - (?i + 1)) = iworld + P" using i by simp
  finally have w: "(?w + P - ?i - 1) mod P = iworld" using assms(1) by simp
  have "?m + ncomms - ?j = ?m + (ncomms - ?j)" using j by simp
  also have "\<dots> mod ncomms = (me + ?j + (ncomms - ?j)) mod ncomms"
    by (simp only: mod_add_left_eq)
  also have "me + ?j + (ncomms - ?j) = me + ncomms" using j by simp
  finally have e: "(?m + ncomms - ?j) mod ncomms = me" using assms(2) by simp
  show ?thesis unfolding ps dv pr w e ..
qed

lemma store_reply_other_slot:
  assumes "\<forall>tv \<in> set reply. mp (fst tv) \<noteq> c"
  shows "store_reply mp reply row c = row c"
proof -
  have "fold (\<lambda>tv r. r(mp (fst tv) := snd tv)) reply row c = row c"
    using assms by (induction reply arbitrary: row) simp_all
  then show ?thesis by (simp add: store_reply_def)
qed

lemma search_reply_member:
  assumes "tv \<in> set (search_reply q ts)"
  shows "\<exists>t0 \<in> set ts. finds q t0 \<and> fst tv = tags q ! nat (atom_map q t0)"
  using assms
  by (auto simp: search_reply_def finds_def Let_def split: if_splits)

lemma fold_keeps_slot:
  assumes "\<And>x B'. x \<in> set xs \<Longrightarrow> length B' = P \<Longrightarrow>
              length (stp x B') = P \<and> (stp x B' ! r) c = (B' ! r) c"
    and "length B0 = P"
  shows "length (fold stp xs B0) = P \<and> (fold stp xs B0 ! r) c = (B0 ! r) c"
  using assms
proof (induction xs arbitrary: B0)
  case Nil
  then show ?case by simp
next
  case (Cons x xs)
  have s: "length (stp x B0) = P \<and> (stp x B0 ! r) c = (B0 ! r) c"
    using Cons.prems(1) [of x B0] Cons.prems(2) by simp
  have "length (fold stp xs (stp x B0)) = P \<and> (fold stp xs (stp x B0) ! r) c = (stp x B0 ! r) c"
    using Cons.IH [of "stp x B0"] Cons.prems(1) s by simp
  then show ?case using s by simp
qed

text \<open>
  C8, as amended. \<^verbatim>\<open>comm_exec\<close> has no failure path: it always returns a bead buffer.
  When the tag of the local atom \<open>i\<close> is found by no process of a remote replica \<open>r\<close>, the
  slot of that atom in row \<open>r\<close> of the buffer keeps the value it had before the call
  (for hosts whose \<^verbatim>\<open>atom->map\<close> agrees with their tag arrays).
\<close>

theorem comm_exec_unmatched_keeps_slot:
  assumes "iworld < P" and "r < P" and "r \<noteq> iworld" and "length B = P"
    and "map_consistent (G ! (iworld * ncomms + me))"
    and "\<forall>s<ncomms. tags_consistent (G ! (r * ncomms + s))"
    and "i < length (tags (G ! (iworld * ncomms + me)))"
    and "\<forall>s<ncomms. \<not> finds (G ! (r * ncomms + s)) (tags (G ! (iworld * ncomms + me)) ! i)"
  shows "(comm_exec P ncomms G iworld me B ! r) (int i) = (B ! r) (int i)"
proof -
  let ?self = "G ! (iworld * ncomms + me)"
  let ?ps = "plan_send P ncomms iworld me"
  let ?mi = "mode_index P ncomms iworld"
  let ?B0 = "B[iworld := copy_local (ptr ?self) (B ! iworld)]"
  let ?stp = "\<lambda>iplan B'. B'[?mi ! iplan :=
                 store_reply (atom_map ?self) (search_reply (G ! (?ps ! iplan)) (tags ?self))
                   (B' ! (?mi ! iplan))]"
  have step: "length (?stp x B') = P \<and> (?stp x B' ! r) (int i) = (B' ! r) (int i)"
    if x: "x \<in> set [0..<length ?ps]" and len: "length B' = P" for x B'
  proof (cases "?mi ! x = r")
    case False
    then show ?thesis using len by simp
  next
    case True
    have xl: "x < length ?ps" using x by simp
    obtain s where s: "s < ncomms" "?ps ! x = r * ncomms + s"
      using plan_send_peer [OF xl] True by auto
    let ?q = "G ! (r * ncomms + s)"
    have tc: "tags_consistent ?q" using assms(6) s(1) by simp
    have nf: "\<not> finds ?q (tags ?self ! i)" using assms(8) s(1) by simp
    have other: "\<forall>tv \<in> set (search_reply ?q (tags ?self)). atom_map ?self (fst tv) \<noteq> int i"
    proof
      fix tv assume "tv \<in> set (search_reply ?q (tags ?self))"
      then obtain t0 where t0: "t0 \<in> set (tags ?self)" "finds ?q t0"
          "fst tv = tags ?q ! nat (atom_map ?q t0)"
        using search_reply_member by blast
      have ft: "fst tv = t0" using tc t0(2,3) by (simp add: tags_consistent_def)
      obtain j where j: "j < length (tags ?self)" "tags ?self ! j = t0"
        using t0(1) by (auto simp: in_set_conv_nth)
      have mj: "atom_map ?self t0 = int j"
        using assms(5) j by (auto simp: map_consistent_def)
      show "atom_map ?self (fst tv) \<noteq> int i"
      proof
        assume "atom_map ?self (fst tv) = int i"
        then have "j = i" using ft mj by simp
        then show False using j(2) t0(2) nf by simp
      qed
    qed
    have "(store_reply (atom_map ?self) (search_reply ?q (tags ?self)) (B' ! r)) (int i)
          = (B' ! r) (int i)"
      by (rule store_reply_other_slot [OF other])
    then show ?thesis using True len assms(2) s(2) by simp
  qed
  have l0: "length ?B0 = P" using assms(4) by simp
  have "(fold ?stp [0..<length ?ps] ?B0 ! r) (int i) = (?B0 ! r) (int i)"
    using fold_keeps_slot [of "[0..<length ?ps]" P ?stp r "int i" ?B0, OF step l0] by blast
  moreover have "(?B0 ! r) (int i) = (B ! r) (int i)"
    using assms(3) by simp
  moreover have "comm_exec P ncomms G iworld me B = fold ?stp [0..<length ?ps] ?B0"
    by (simp add: comm_exec_def Let_def)
  ultimately show ?thesis by simp
qed

lemma ex_plan: "plan_send 2 1 0 0 = [1]" "mode_index 2 1 0 = [1]"
  by (simp_all add: plan_send_def mode_index_def)

text \<open>
  C8 as stated has the exchange abort with an error and never leave a stale value. Tag 7
  of replica 0 is unknown to replica 1; the exchange returns, the atom's slot in row 0
  holds its own value and its slot in row 1 still holds the old value.
\<close>

theorem comm_exec_stale_counterexample:
  "\<not> finds (ex_cgrid ! 1) (tags (ex_cgrid ! 0) ! 0)
   \<and> (comm_exec 2 1 ex_cgrid 0 0 [stale_row, stale_row] ! 0) 0 = (1, 1, 1)
   \<and> (comm_exec 2 1 ex_cgrid 0 0 [stale_row, stale_row] ! 1) 0 = (99, 99, 99)"
  unfolding comm_exec_def Let_def ex_plan
  by (simp add: ex_cgrid_def search_reply_def store_reply_def stale_row_def finds_def
      copy_local_def)

theorem comm_exec_unmatched_keeps_slot_witness:
  "(0::nat) < 2 \<and> (1::nat) < 2 \<and> (1::nat) \<noteq> 0 \<and> length [stale_row, stale_row] = 2
   \<and> map_consistent (ex_cgrid ! (0 * 1 + 0))
   \<and> tags_consistent (ex_cgrid ! (1 * 1 + 0))
   \<and> \<not> finds (ex_cgrid ! (1 * 1 + 0)) (tags (ex_cgrid ! (0 * 1 + 0)) ! 0)
   \<and> (comm_exec 2 1 ex_cgrid 0 0 [stale_row, stale_row] ! 1) (int 0)
       = ([stale_row, stale_row] ! 1) (int 0)"
proof -
  have h1: "(0::nat) < 2" by simp
  have h2: "(1::nat) < 2" by simp
  have h3: "(1::nat) \<noteq> 0" by simp
  have h4: "length [stale_row, stale_row] = 2" by simp
  have h5: "map_consistent (ex_cgrid ! (0 * 1 + 0))"
    by (simp add: map_consistent_def ex_cgrid_def)
  have t: "tags_consistent (ex_cgrid ! (1 * 1 + 0))"
    by (simp add: tags_consistent_def finds_def ex_cgrid_def)
  then have h6: "\<forall>s<1. tags_consistent (ex_cgrid ! (1 * 1 + s))" by simp
  have h7: "0 < length (tags (ex_cgrid ! (0 * 1 + 0)))" by (simp add: ex_cgrid_def)
  have n: "\<not> finds (ex_cgrid ! (1 * 1 + 0)) (tags (ex_cgrid ! (0 * 1 + 0)) ! 0)"
    by (simp add: finds_def ex_cgrid_def)
  then have h8: "\<forall>s<1. \<not> finds (ex_cgrid ! (1 * 1 + s)) (tags (ex_cgrid ! (0 * 1 + 0)) ! 0)"
    by simp
  show ?thesis
    using comm_exec_unmatched_keeps_slot [OF h1 h2 h3 h4 h5 h6 h7 h8] h1 h2 h3 h4 h5 t n
    by blast
qed

section \<open>The normal-mode matrices\<close>

lemma fold_rows_cell:
  "fold (\<lambda>i M'. mat_set M' i j (g i)) xs M a b = (if b = j \<and> a \<in> set xs then g a else M a b)"
  by (induction xs arbitrary: M) (auto simp: mat_set_def)

lemma fold_columns_cell:
  assumes "\<And>j M a b. F j M a b = (if b = j \<and> C a then H a j else M a b)"
  shows "fold F js M0 a b = (if b \<in> set js \<and> C a then H a b else M0 a b)"
  using assms by (induction js arbitrary: M0) auto

lemma degenerate_rows_cell:
  "degenerate_rows P M0 a b =
     (if b < P \<and> 1 \<le> a \<and> a < P
      then (if a \<le> P div 2
            then sqrt 2 * cos (2 * pi * real a * real b / real P) / sqrt (real P)
            else sqrt 2 * sin (2 * pi * real a * real b / real P) / sqrt (real P))
      else M0 a b)"
proof -
  let ?F = "\<lambda>j M.
        fold (\<lambda>i M'. mat_set M' i j
                (sqrt 2 * sin (2 * pi * real i * real j / real P) / sqrt (real P)))
          [P div 2 + 1..<P]
          (fold (\<lambda>i M'. mat_set M' i j
                  (sqrt 2 * cos (2 * pi * real i * real j / real P) / sqrt (real P)))
             [1..<P div 2 + 1] M)"
  let ?H = "\<lambda>a j. if a \<le> P div 2
            then sqrt 2 * cos (2 * pi * real a * real j / real P) / sqrt (real P)
            else sqrt 2 * sin (2 * pi * real a * real j / real P) / sqrt (real P)"
  have step: "?F j M a b = (if b = j \<and> (1 \<le> a \<and> a < P) then ?H a j else M a b)" for j M a b
    unfolding fold_rows_cell by auto
  have "fold ?F [0..<P] M0 a b = (if b \<in> set [0..<P] \<and> (1 \<le> a \<and> a < P) then ?H a b else M0 a b)"
    by (rule fold_columns_cell [of ?F "\<lambda>a. 1 \<le> a \<and> a < P" ?H, OF step])
  then show ?thesis by (simp add: degenerate_rows_def)
qed

lemma nondegenerate_rows_cell:
  "nondegenerate_rows P M0 a b =
     (if b < P \<and> (a = 0 \<or> (P mod 2 = 0 \<and> a = P div 2))
      then (if P mod 2 = 0 \<and> a = P div 2 then 1 / sqrt (real P) * (- 1) ^ b else 1 / sqrt (real P))
      else M0 a b)"
proof -
  let ?F = "\<lambda>i M. let M1 = mat_set M 0 i (1 / sqrt (real P))
                 in if P mod 2 = 0
                    then mat_set M1 (P div 2) i (1 / sqrt (real P) * (- 1) ^ i)
                    else M1"
  let ?C = "\<lambda>a. a = 0 \<or> (P mod 2 = 0 \<and> a = P div 2)"
  let ?H = "\<lambda>a j. if P mod 2 = 0 \<and> a = P div 2 then 1 / sqrt (real P) * (- 1) ^ j
                  else 1 / sqrt (real P)"
  have step: "?F j M a b = (if b = j \<and> ?C a then ?H a j else M a b)" for j M a b
    by (auto simp: mat_set_def Let_def)
  have "fold ?F [0..<P] M0 a b = (if b \<in> set [0..<P] \<and> ?C a then ?H a b else M0 a b)"
    by (rule fold_columns_cell [of ?F ?C ?H, OF step])
  then show ?thesis by (simp add: nondegenerate_rows_def)
qed

lemma transpose_fill_cell:
  "transpose_fill P M T0 a b = (if a < P \<and> b < P then M b a else T0 a b)"
proof -
  let ?F = "\<lambda>i T. fold (\<lambda>j T'. mat_set T' i j (M j i)) [0..<P] T"
  have inner: "fold (\<lambda>j T'. mat_set T' i j (M j i)) js T a b
               = (if a = i \<and> b \<in> set js then M b a else T a b)" for i js T
    by (induction js arbitrary: T) (auto simp: mat_set_def)
  have outer: "fold ?F is T a b = (if a \<in> set is \<and> b < P then M b a else T a b)" for "is" T
    by (induction "is" arbitrary: T) (auto simp: inner)
  show ?thesis unfolding transpose_fill_def outer by simp
qed

lemma M_x2xp_cell:
  assumes "k < P" "j < P"
  shows "M_x2xp (nmpimd_init P A0 B0) k j = spec_forward P k j"
proof -
  have P0: "0 < P" using assms by simp
  have s: "sqrt 2 * x / sqrt (real P) = sqrt (2 / real P) * x" for x
    by (simp add: real_sqrt_divide)
  have M: "M_x2xp (nmpimd_init P A0 B0) k j =
      (if k = 0 \<or> (P mod 2 = 0 \<and> k = P div 2)
       then (if P mod 2 = 0 \<and> k = P div 2 then 1 / sqrt (real P) * (- 1) ^ j else 1 / sqrt (real P))
       else (if k \<le> P div 2
            then sqrt 2 * cos (2 * pi * real k * real j / real P) / sqrt (real P)
            else sqrt 2 * sin (2 * pi * real k * real j / real P) / sqrt (real P)))"
    using assms
    by (simp add: nmpimd_init_def Let_def nondegenerate_rows_cell degenerate_rows_cell)
  have e1: "(P mod 2 = 0 \<and> k = P div 2) = (2 * k = P)" by presburger
  have e2: "k \<le> P div 2 \<longleftrightarrow> 2 * k < P" if "2 * k \<noteq> P" using that by presburger
  show ?thesis
  proof (cases "k = 0")
    case True
    then show ?thesis using P0 unfolding M spec_forward_def by auto
  next
    case k0: False
    show ?thesis
    proof (cases "2 * k = P")
      case True
      then show ?thesis using k0 unfolding M spec_forward_def e1 by simp
    next
      case False
      then show ?thesis using k0 e2 [OF False] unfolding M spec_forward_def e1
        by (simp add: s)
    qed
  qed
qed

lemma M_xp2x_cell:
  assumes "k < P" "j < P"
  shows "M_xp2x (nmpimd_init P A0 B0) k j = M_x2xp (nmpimd_init P A0 B0) j k"
  using assms by (simp add: nmpimd_init_def Let_def transpose_fill_cell)

lemma lam_cell:
  assumes "k < P"
  shows "lam (nmpimd_init P A0 B0) ! k = 4 * (sin (real k * pi / real P))\<^sup>2"
  using assms by (simp add: nmpimd_init_def lam_init_def Let_def power2_eq_square)

lemma lam_length: "length (lam (nmpimd_init P A0 B0)) = P"
  by (simp add: nmpimd_init_def lam_init_def Let_def)

text \<open>
  C3. For \<open>P\<close> replicas \<^verbatim>\<open>nmpimd_init\<close> builds \<open>P\<close> eigenvalues \<open>lam[k] = 4 sin\<^sup>2 (k \<pi> / P)\<close>, so
  that \<open>lam[0] = 0\<close> and, for even \<open>P\<close>, \<open>lam[P/2] = 4\<close>; a forward matrix whose row 0 is
  \<open>1 / sqrt P\<close> in every column, whose row \<open>P/2\<close> (when \<open>2 k = P\<close>) has \<open>(1 / sqrt P) (-1)\<^sup>j\<close>
  in column \<open>j\<close>, whose rows \<open>1 \<le> k < P/2\<close> have \<open>sqrt (2/P) cos (2 \<pi> k j / P)\<close> and whose rows
  \<open>P/2 < k < P\<close> have \<open>sqrt (2/P) sin (2 \<pi> k j / P)\<close>; and an inverse matrix that is the
  transpose of the forward one. This holds whatever the two freshly allocated matrices
  contained.
\<close>

theorem nmpimd_init_closed_form:
  assumes "k < P" and "j < P"
  shows "length (lam (nmpimd_init P A0 B0)) = P
       \<and> lam (nmpimd_init P A0 B0) ! k = 4 * (sin (real k * pi / real P))\<^sup>2
       \<and> lam (nmpimd_init P A0 B0) ! 0 = 0
       \<and> (even P \<longrightarrow> lam (nmpimd_init P A0 B0) ! (P div 2) = 4)
       \<and> M_x2xp (nmpimd_init P A0 B0) 0 j = 1 / sqrt (real P)
       \<and> (2 * k = P \<longrightarrow> M_x2xp (nmpimd_init P A0 B0) k j = 1 / sqrt (real P) * (- 1) ^ j)
       \<and> (1 \<le> k \<and> 2 * k < P \<longrightarrow>
            M_x2xp (nmpimd_init P A0 B0) k j
              = sqrt (2 / real P) * cos (2 * pi * real k * real j / real P))
       \<and> (P < 2 * k \<longrightarrow>
            M_x2xp (nmpimd_init P A0 B0) k j
              = sqrt (2 / real P) * sin (2 * pi * real k * real j / real P))
       \<and> M_xp2x (nmpimd_init P A0 B0) k j = M_x2xp (nmpimd_init P A0 B0) j k"
proof -
  let ?N = "nmpimd_init P A0 B0"
  have P0: "0 < P" using assms by simp
  have l0: "lam ?N ! 0 = 0" using lam_cell [OF P0, of A0 B0] by simp
  have lh: "lam ?N ! (P div 2) = 4" if e: "even P"
  proof -
    have h: "P div 2 < P" using P0 by simp
    obtain m where m: "P = 2 * m" using e by (auto elim: evenE)
    have m0: "real m \<noteq> 0" using P0 m by simp
    have "real (P div 2) * pi / real P = real m * pi / (2 * real m)" by (simp add: m)
    also have "\<dots> = pi / 2" using m0 by simp
    finally have "sin (real (P div 2) * pi / real P) = 1" by (simp only: sin_pi_half)
    then show ?thesis unfolding lam_cell [OF h, of A0 B0] by simp
  qed
  have r0: "M_x2xp ?N 0 j = 1 / sqrt (real P)"
    using M_x2xp_cell [OF P0 assms(2), of A0 B0] by (simp add: spec_forward_def)
  have rk: "M_x2xp ?N k j = spec_forward P k j" by (rule M_x2xp_cell [OF assms])
  have rh: "M_x2xp ?N k j = 1 / sqrt (real P) * (- 1) ^ j" if "2 * k = P"
    using that P0 unfolding rk spec_forward_def by auto
  have rc: "M_x2xp ?N k j = sqrt (2 / real P) * cos (2 * pi * real k * real j / real P)"
    if "1 \<le> k \<and> 2 * k < P"
    using that unfolding rk spec_forward_def by auto
  have rs: "M_x2xp ?N k j = sqrt (2 / real P) * sin (2 * pi * real k * real j / real P)"
    if "P < 2 * k"
    using that unfolding rk spec_forward_def by auto
  show ?thesis
    using lam_length lam_cell [OF assms(1)] l0 lh r0 rh rc rs M_xp2x_cell [OF assms]
    by blast
qed

section \<open>Sums over the roots of unity and orthonormality\<close>

lemma cis_root_eq_1:
  fixes m :: int
  assumes "0 < P"
  shows "cis (2 * pi * real_of_int m / real P) = 1 \<longleftrightarrow> int P dvd m"
proof
  assume "cis (2 * pi * real_of_int m / real P) = 1"
  then have "cos (2 * pi * real_of_int m / real P) = 1"
    by (simp add: complex_eq_iff)
  then obtain n :: int where n: "2 * pi * real_of_int m / real P = real_of_int n * 2 * pi"
    using cos_one_2pi_int by blast
  have "(2 * pi) * (real_of_int m / real P) = (2 * pi) * real_of_int n"
    using n by (simp add: mult_ac)
  then have "real_of_int m / real P = real_of_int n"
    by (simp only: mult_left_cancel [OF pi_neq_zero] mult_cancel_left) (simp add: pi_neq_zero)
  then have "real_of_int m = real_of_int n * real P"
    using assms by (simp add: field_simps)
  then have "real_of_int m = real_of_int (n * int P)" by simp
  then have "m = n * int P" by (simp only: of_int_eq_iff)
  then show "int P dvd m" by simp
next
  assume "int P dvd m"
  then obtain n where n: "m = int P * n" by (auto elim: dvdE)
  have "2 * pi * real_of_int m / real P = 2 * pi * real_of_int n"
    using assms by (simp add: n)
  then show "cis (2 * pi * real_of_int m / real P) = 1"
    by (simp only: cis_multiple_2pi [OF Ints_of_int])
qed

lemma sum_cis_roots:
  fixes m :: int
  assumes "0 < P"
  shows "(\<Sum>j<P. cis (2 * pi * real_of_int m * real j / real P))
         = (if int P dvd m then of_nat P else 0)"
proof -
  let ?z = "cis (2 * pi * real_of_int m / real P)"
  have pw: "cis (2 * pi * real_of_int m * real j / real P) = ?z ^ j" for j
    by (simp add: DeMoivre mult_ac)
  have zP: "?z ^ P = 1"
  proof -
    have "real P * (2 * pi * real_of_int m / real P) = 2 * pi * real_of_int m"
      using assms by simp
    then have "?z ^ P = cis (2 * pi * real_of_int m)" by (simp only: DeMoivre)
    then show ?thesis by (simp only: cis_multiple_2pi [OF Ints_of_int])
  qed
  have "(\<Sum>j<P. ?z ^ j) = (if ?z = 1 then of_nat P else (1 - ?z ^ P) / (1 - ?z))"
    by (rule sum_gp_strict)
  also have "\<dots> = (if int P dvd m then of_nat P else 0)"
    using cis_root_eq_1 [OF assms, of m] zP by simp
  finally show ?thesis by (simp only: pw)
qed

lemma sum_cos_roots:
  fixes m :: int
  assumes "0 < P"
  shows "(\<Sum>j<P. cos (2 * pi * real_of_int m * real j / real P))
         = (if int P dvd m then real P else 0)"
proof -
  have "(\<Sum>j<P. cos (2 * pi * real_of_int m * real j / real P))
        = Re (\<Sum>j<P. cis (2 * pi * real_of_int m * real j / real P))"
    by simp
  then show ?thesis unfolding sum_cis_roots [OF assms] by simp
qed

lemma sum_sin_roots:
  fixes m :: int
  assumes "0 < P"
  shows "(\<Sum>j<P. sin (2 * pi * real_of_int m * real j / real P)) = 0"
proof -
  have "(\<Sum>j<P. sin (2 * pi * real_of_int m * real j / real P))
        = Im (\<Sum>j<P. cis (2 * pi * real_of_int m * real j / real P))"
    by simp
  then show ?thesis unfolding sum_cis_roots [OF assms] by simp
qed

lemma sum_cos_shift:
  fixes m :: int
  assumes "0 < P"
  shows "(\<Sum>j<P. cos (2 * pi * real_of_int m * real j / real P - t))
         = (if int P dvd m then real P * cos t else 0)"
proof -
  have "(\<Sum>j<P. cos (2 * pi * real_of_int m * real j / real P - t))
        = (\<Sum>j<P. cos (2 * pi * real_of_int m * real j / real P) * cos t
                  + sin (2 * pi * real_of_int m * real j / real P) * sin t)"
    by (simp only: cos_diff)
  also have "\<dots> = (\<Sum>j<P. cos (2 * pi * real_of_int m * real j / real P)) * cos t
                  + (\<Sum>j<P. sin (2 * pi * real_of_int m * real j / real P)) * sin t"
    by (simp only: sum.distrib sum_distrib_right)
  also have "\<dots> = (if int P dvd m then real P * cos t else 0)"
    unfolding sum_cos_roots [OF assms] sum_sin_roots [OF assms] by simp
  finally show ?thesis .
qed

lemma spec_forward_cos_form:
  assumes "0 < P"
  shows "spec_forward P k j
         = nm_amp P k * cos (2 * pi * real_of_int (int k) * real j / real P - nm_phase P k)"
proof (cases "k = 0")
  case True
  then show ?thesis by (simp add: spec_forward_def nm_amp_def nm_phase_def)
next
  case k0: False
  show ?thesis
  proof (cases "2 * k = P")
    case True
    have "2 * pi * real k * real j / real P = 2 * pi * real k * real j / (2 * real k)"
      using True by (metis of_nat_mult of_nat_numeral)
    also have "\<dots> = real j * pi" using k0 by simp
    finally have "cos (2 * pi * real k * real j / real P) = (- 1) ^ j"
      by (simp only: cos_npi)
    then show ?thesis using True k0
      by (simp add: spec_forward_def nm_amp_def nm_phase_def)
  next
    case False
    show ?thesis
    proof (cases "2 * k < P")
      case True
      then show ?thesis using False k0
        by (simp add: spec_forward_def nm_amp_def nm_phase_def)
    next
      case F: False
      then have "P < 2 * k" using False by simp
      then show ?thesis using False k0 F
        by (simp add: spec_forward_def nm_amp_def nm_phase_def cos_diff)
    qed
  qed
qed

lemma cos_product_sum:
  fixes k l :: nat
  assumes "0 < P"
  shows "(\<Sum>j<P. cos (2 * pi * real_of_int (int k) * real j / real P - a)
                * cos (2 * pi * real_of_int (int l) * real j / real P - b))
         = ((if int P dvd int k - int l then real P * cos (a - b) else 0)
            + (if int P dvd int k + int l then real P * cos (a + b) else 0)) / 2"
proof -
  have e: "cos (2 * pi * real_of_int (int k) * real j / real P - a)
             * cos (2 * pi * real_of_int (int l) * real j / real P - b)
           = (cos (2 * pi * real_of_int (int k - int l) * real j / real P - (a - b))
              + cos (2 * pi * real_of_int (int k + int l) * real j / real P - (a + b))) / 2" for j
  proof -
    have d: "(2 * pi * real_of_int (int k) * real j / real P - a)
               - (2 * pi * real_of_int (int l) * real j / real P - b)
             = 2 * pi * real_of_int (int k - int l) * real j / real P - (a - b)"
      by (simp add: algebra_simps diff_divide_distrib)
    have s: "(2 * pi * real_of_int (int k) * real j / real P - a)
               + (2 * pi * real_of_int (int l) * real j / real P - b)
             = 2 * pi * real_of_int (int k + int l) * real j / real P - (a + b)"
      by (simp add: algebra_simps add_divide_distrib)
    show ?thesis unfolding cos_times_cos d s ..
  qed
  have "(\<Sum>j<P. cos (2 * pi * real_of_int (int k) * real j / real P - a)
                * cos (2 * pi * real_of_int (int l) * real j / real P - b))
        = ((\<Sum>j<P. cos (2 * pi * real_of_int (int k - int l) * real j / real P - (a - b)))
           + (\<Sum>j<P. cos (2 * pi * real_of_int (int k + int l) * real j / real P - (a + b)))) / 2"
    unfolding e by (simp only: sum_divide_distrib [symmetric] sum.distrib)
  then show ?thesis
    unfolding sum_cos_shift [OF assms] .
qed

lemma dvd_diff_small:
  fixes k l :: nat
  assumes "k < P" "l < P"
  shows "int P dvd int k - int l \<longleftrightarrow> k = l"
proof
  assume d: "int P dvd int k - int l"
  have "\<bar>int k - int l\<bar> < int P" using assms by linarith
  then have "int k - int l = 0" using d
    by (meson zdvd_not_zless abs_ge_zero dvd_abs_iff zabs_less_one_iff linorder_neqE_linordered_idom
        not_less zero_less_abs_iff)
  then show "k = l" by simp
qed simp

lemma dvd_sum_small:
  fixes k l :: nat
  assumes "k < P" "l < P"
  shows "int P dvd int k + int l \<longleftrightarrow> (k = 0 \<and> l = 0) \<or> k + l = P"
proof
  assume d: "int P dvd int k + int l"
  then have "P dvd k + l" by (metis int_dvd_int_iff of_nat_add)
  then obtain q where q: "k + l = P * q" by (auto elim: dvdE)
  have "P * q < P * 2" using assms q by linarith
  then have "q < 2" by simp
  then have "q = 0 \<or> q = 1" by arith
  then show "(k = 0 \<and> l = 0) \<or> k + l = P" using q by auto
next
  assume "(k = 0 \<and> l = 0) \<or> k + l = P"
  then show "int P dvd int k + int l"
    by (metis add_0 dvd_0_right dvd_refl of_nat_0 of_nat_add)
qed

lemma spec_forward_rows_orthonormal:
  assumes "k < P" "l < P"
  shows "(\<Sum>j<P. spec_forward P k j * spec_forward P l j) = (if k = l then 1 else 0)"
proof -
  have P0: "0 < P" using assms by simp
  have rP: "0 < real P" using P0 by simp
  have "(\<Sum>j<P. spec_forward P k j * spec_forward P l j)
        = nm_amp P k * nm_amp P l
          * (\<Sum>j<P. cos (2 * pi * real_of_int (int k) * real j / real P - nm_phase P k)
                    * cos (2 * pi * real_of_int (int l) * real j / real P - nm_phase P l))"
    unfolding spec_forward_cos_form [OF P0] by (simp add: sum_distrib_left mult_ac)
  also have "\<dots> = nm_amp P k * nm_amp P l
          * (((if k = l then real P * cos (nm_phase P k - nm_phase P l) else 0)
            + (if (k = 0 \<and> l = 0) \<or> k + l = P
               then real P * cos (nm_phase P k + nm_phase P l) else 0)) / 2)"
    unfolding cos_product_sum [OF P0] dvd_diff_small [OF assms] dvd_sum_small [OF assms] ..
  also have "\<dots> = (if k = l then 1 else 0)"
  proof (cases "k = l")
    case True
    then have l: "l = k" by simp
    have sq: "sqrt (real P) * sqrt (real P) = real P" using rP by simp
    have sq2: "sqrt (2 / real P) * sqrt (2 / real P) = 2 / real P" using rP by simp
    have g: "nm_amp P k * nm_amp P k
          * ((real P * cos (nm_phase P k - nm_phase P k)
            + (if (k = 0 \<and> k = 0) \<or> k + k = P
               then real P * cos (nm_phase P k + nm_phase P k) else 0)) / 2) = 1"
    proof (cases "k = 0 \<or> 2 * k = P")
      case c: True
      then have ph: "nm_phase P k = 0" by (auto simp: nm_phase_def)
      have am: "nm_amp P k = 1 / sqrt (real P)" using c by (simp add: nm_amp_def)
      have kk: "(k = 0 \<and> k = 0) \<or> k + k = P" using c by auto
      have "1 / sqrt (real P) * (1 / sqrt (real P)) * ((real P + real P) / 2)
            = real P / (sqrt (real P) * sqrt (real P))"
        by simp
      also have "\<dots> = 1" unfolding sq using rP by simp
      finally show ?thesis unfolding ph am using kk by simp
    next
      case c: False
      then have am: "nm_amp P k = sqrt (2 / real P)" by (simp add: nm_amp_def)
      have kk: "\<not> ((k = 0 \<and> k = 0) \<or> k + k = P)" using c by auto
      have "sqrt (2 / real P) * sqrt (2 / real P) * (real P / 2) = 1"
        unfolding sq2 using rP by simp
      then show ?thesis unfolding am using kk by simp
    qed
    show ?thesis unfolding l using g by simp
  next
    case False
    show ?thesis
    proof (cases "k + l = P")
      case s: True
      have "(P < 2 * k \<and> \<not> P < 2 * l) \<or> (\<not> P < 2 * k \<and> P < 2 * l)"
        using s False by arith
      then have "cos (nm_phase P k + nm_phase P l) = 0"
        by (auto simp: nm_phase_def)
      then show ?thesis using False by simp
    next
      case s: False
      then show ?thesis using False by simp
    qed
  qed
  finally show ?thesis .
qed

lemma sum_reflect:
  fixes f :: "nat \<Rightarrow> real"
  shows "(\<Sum>k\<in>{1..<P}. f (P - k)) = (\<Sum>k\<in>{1..<P}. f k)"
  by (rule sum.reindex_bij_witness [of _ "\<lambda>k. P - k" "\<lambda>k. P - k"]) auto

lemma sum_paired:
  fixes V W :: "nat \<Rightarrow> real"
  assumes "0 < P" and "V 0 = W 0"
    and "\<And>k. 1 \<le> k \<Longrightarrow> k < P \<Longrightarrow> V k + V (P - k) = W k + W (P - k)"
  shows "(\<Sum>k<P. V k) = (\<Sum>k<P. W k)"
proof -
  have split: "(\<Sum>k<P. g k) = g 0 + (\<Sum>k\<in>{1..<P}. g k)" for g :: "nat \<Rightarrow> real"
    using assms(1) by (simp add: lessThan_atLeast0 sum.atLeast_Suc_lessThan)
  have "2 * (\<Sum>k\<in>{1..<P}. V k) = (\<Sum>k\<in>{1..<P}. V k) + (\<Sum>k\<in>{1..<P}. V (P - k))"
    by (simp only: sum_reflect mult_2)
  also have "\<dots> = (\<Sum>k\<in>{1..<P}. V k + V (P - k))" by (simp only: sum.distrib)
  also have "\<dots> = (\<Sum>k\<in>{1..<P}. W k + W (P - k))"
    by (rule sum.cong [OF refl]) (simp add: assms(3))
  also have "\<dots> = (\<Sum>k\<in>{1..<P}. W k) + (\<Sum>k\<in>{1..<P}. W (P - k))" by (simp only: sum.distrib)
  also have "\<dots> = 2 * (\<Sum>k\<in>{1..<P}. W k)" by (simp only: sum_reflect mult_2)
  finally have "(\<Sum>k\<in>{1..<P}. V k) = (\<Sum>k\<in>{1..<P}. W k)" by simp
  then show ?thesis unfolding split using assms(2) by simp
qed

lemma sin_cos_2pi_nat_minus:
  "sin (2 * pi * real j - x) = - sin x" "cos (2 * pi * real j - x) = cos x"
proof -
  have a: "2 * pi * real j = 2 * real j * pi" by simp
  show "sin (2 * pi * real j - x) = - sin x"
    unfolding sin_diff a sin_2npi cos_2npi by simp
  show "cos (2 * pi * real j - x) = cos x"
    unfolding cos_diff a sin_2npi cos_2npi by simp
qed

lemma cos_2pi_int_minus: "cos (2 * pi * real_of_int d - x) = cos x"
  unfolding cos_diff cos_int_2pin sin_int_2pin by simp

lemma reflected_angle:
  assumes "k < P"
  shows "2 * pi * real (P - k) * y / real P = 2 * pi * y - 2 * pi * real k * y / real P"
proof -
  have P0: "real P \<noteq> 0" using assms by simp
  have "real (P - k) = real P - real k" using assms by (simp add: of_nat_diff)
  then have "2 * pi * real (P - k) * y / real P
             = (2 * pi * y * real P - 2 * pi * real k * y) / real P"
    by (simp add: algebra_simps)
  also have "\<dots> = 2 * pi * y - 2 * pi * real k * y / real P"
    using P0 by (simp add: diff_divide_distrib)
  finally show ?thesis .
qed

lemma pair_ring:
  fixes s :: real
  shows "s * a * (s * b) + s * (- c) * (s * (- d)) = (s * s) * (a * b + c * d)"
    and "s * c * (s * d) + s * a * (s * b) = (s * s) * (a * b + c * d)"
  by (simp_all add: algebra_simps)

lemma column_pair:
  assumes "1 \<le> k" "k < P"
  shows "spec_forward P k j * spec_forward P k l
           + spec_forward P (P - k) j * spec_forward P (P - k) l
         = 2 / real P * cos (2 * pi * real k * real j / real P - 2 * pi * real k * real l / real P)"
proof -
  have P0: "0 < real P" using assms by simp
  have sq2: "sqrt (2 / real P) * sqrt (2 / real P) = 2 / real P" using P0 by simp
  have sq1: "1 / sqrt (real P) * (1 / sqrt (real P)) = 1 / real P"
    using P0 by (simp add: field_simps)
  let ?a = "\<lambda>j. 2 * pi * real k * real j / real P"
  have refl_sin: "sin (2 * pi * real (P - k) * real j / real P) = - sin (?a j)" for j
    unfolding reflected_angle [OF assms(2)] by (rule sin_cos_2pi_nat_minus(1))
  have refl_cos: "cos (2 * pi * real (P - k) * real j / real P) = cos (?a j)" for j
    unfolding reflected_angle [OF assms(2)] by (rule sin_cos_2pi_nat_minus(2))
  consider (lo) "2 * k < P" | (mid) "2 * k = P" | (hi) "P < 2 * k" by linarith
  then show ?thesis
  proof cases
    case lo
    have f1: "spec_forward P k j = sqrt (2 / real P) * cos (?a j)" for j
      using lo assms by (simp add: spec_forward_def)
    have h: "P - k \<noteq> 0" "\<not> 2 * (P - k) < P" "2 * (P - k) \<noteq> P" using lo assms by arith+
    have f2: "spec_forward P (P - k) j = sqrt (2 / real P) * (- sin (?a j))" for j
      by (simp only: spec_forward_def h if_False refl_sin)
    show ?thesis unfolding f1 f2 pair_ring(1) sq2 cos_diff ..
  next
    case hi
    have f1: "spec_forward P k j = sqrt (2 / real P) * sin (?a j)" for j
      using hi assms by (simp add: spec_forward_def)
    have h: "P - k \<noteq> 0" "2 * (P - k) < P" "2 * (P - k) \<noteq> P" using hi assms by arith+
    have f2: "spec_forward P (P - k) j = sqrt (2 / real P) * cos (?a j)" for j
      by (simp only: spec_forward_def h if_False if_True refl_cos)
    show ?thesis unfolding f1 f2 pair_ring(2) sq2 cos_diff ..
  next
    case mid
    have pk: "P - k = k" using mid by simp
    have k0: "real k \<noteq> 0" using assms by simp
    have f1: "spec_forward P k j = 1 / sqrt (real P) * (- 1) ^ j" for j
      using mid assms by (simp add: spec_forward_def)
    have aj: "?a j = real j * pi" for j
    proof -
      have "?a j = 2 * pi * real k * real j / (2 * real k)"
        using mid by (metis of_nat_mult of_nat_numeral)
      then show ?thesis using k0 by simp
    qed
    have c: "cos (?a j) = (- 1) ^ j" "sin (?a j) = 0" for j
      unfolding aj by (simp_all add: cos_npi sin_npi)
    have "1 / sqrt (real P) * (- 1) ^ j * (1 / sqrt (real P) * (- 1) ^ l)
            + 1 / sqrt (real P) * (- 1) ^ j * (1 / sqrt (real P) * (- 1) ^ l)
          = 2 * (1 / sqrt (real P) * (1 / sqrt (real P))) * ((- 1) ^ j * (- 1) ^ l)"
      by (simp add: algebra_simps)
    then show ?thesis unfolding pk f1 sq1 cos_diff c by simp
  qed
qed

lemma spec_forward_columns_orthonormal:
  assumes "j < P" "l < P"
  shows "(\<Sum>k<P. spec_forward P k j * spec_forward P k l) = (if j = l then 1 else 0)"
proof -
  have P0: "0 < P" using assms by simp
  have rP: "real P \<noteq> 0" using P0 by simp
  let ?d = "real_of_int (int j - int l)"
  let ?V = "\<lambda>k. spec_forward P k j * spec_forward P k l"
  let ?W = "\<lambda>k. cos (2 * pi * real k * ?d / real P) / real P"
  have v0: "?V 0 = ?W 0"
    using P0 by (simp add: spec_forward_def field_simps)
  have ang: "2 * pi * real k * real j / real P - 2 * pi * real k * real l / real P
             = 2 * pi * real k * ?d / real P" for k
    by (simp add: algebra_simps diff_divide_distrib)
  have pair: "?V k + ?V (P - k) = ?W k + ?W (P - k)" if k: "1 \<le> k" "k < P" for k
  proof -
    have w: "?W (P - k) = ?W k"
      unfolding reflected_angle [OF k(2)] cos_2pi_int_minus ..
    have "?V k + ?V (P - k) = 2 / real P * cos (2 * pi * real k * ?d / real P)"
      unfolding column_pair [OF k] ang ..
    also have "\<dots> = ?W k + ?W k" by simp
    finally show ?thesis unfolding w .
  qed
  have comm: "2 * pi * real k * ?d / real P = 2 * pi * ?d * real k / real P" for k
    by (simp add: mult_ac)
  have "(\<Sum>k<P. ?V k) = (\<Sum>k<P. ?W k)"
    by (rule sum_paired [OF P0 v0 pair])
  also have "\<dots> = (\<Sum>k<P. cos (2 * pi * ?d * real k / real P)) / real P"
    unfolding comm by (simp only: sum_divide_distrib)
  also have "\<dots> = (if j = l then 1 else 0)"
    unfolding sum_cos_roots [OF P0] dvd_diff_small [OF assms] using rP by simp
  finally show ?thesis .
qed

lemma fold_accumulate:
  "fold (\<lambda>j des. des + f j) [0..<P] (a::real) = a + (\<Sum>j<P. f j)"
  by (induction P) simp_all

lemma nmpimd_transform_length: "length (nmpimd_transform P src vec n) = 3 * n"
  by (simp add: nmpimd_transform_def)

lemma nmpimd_transform_nth:
  assumes "m < 3 * n"
  shows "nmpimd_transform P src vec n ! m = (\<Sum>j<P. src ! j ! m * vec ! j)"
  using assms by (simp add: nmpimd_transform_def fold_accumulate)

lemma mat_row_nth: "j < P \<Longrightarrow> mat_row P M k ! j = M k j"
  by (simp add: mat_row_def)

lemma orthonormal_round_trip:
  fixes U :: "nat \<Rightarrow> nat \<Rightarrow> real"
  assumes col: "\<And>l. l < P \<Longrightarrow> (\<Sum>j<P. U j l * U j k) = (if l = k then 1 else 0)"
    and k: "k < P"
  shows "(\<Sum>j<P. (\<Sum>l<P. a l * U j l) * U j k) = a k"
proof -
  have "(\<Sum>j<P. (\<Sum>l<P. a l * U j l) * U j k) = (\<Sum>j<P. \<Sum>l<P. a l * (U j l * U j k))"
    by (simp add: sum_distrib_right mult.assoc)
  also have "\<dots> = (\<Sum>l<P. \<Sum>j<P. a l * (U j l * U j k))"
    by (rule sum.swap)
  also have "\<dots> = (\<Sum>l<P. a l * (\<Sum>j<P. U j l * U j k))"
    by (simp add: sum_distrib_left)
  also have "\<dots> = (\<Sum>l<P. a l * (if l = k then 1 else 0))"
    by (rule sum.cong [OF refl]) (simp add: col)
  also have "\<dots> = (\<Sum>l<P. if l = k then a l else 0)"
    by (rule sum.cong [OF refl]) simp
  also have "\<dots> = a k"
    using k by (simp add: sum.delta)
  finally show ?thesis .
qed

text \<open>
  C2. For any number of replicas \<open>P\<close> (in particular every \<open>P \<ge> 2\<close>) and any bead buffer
  \<open>src\<close>: when every replica \<open>j\<close> transforms the buffer with its row of \<^verbatim>\<open>M_x2xp\<close> and
  replica \<open>k\<close> then transforms the gathered results with its row of \<^verbatim>\<open>M_xp2x\<close>, it gets
  back its own entry of \<open>src\<close>, exactly, at every coordinate \<open>m\<close>; and the rows of the
  forward matrix that \<^verbatim>\<open>nmpimd_init\<close> builds are pairwise orthonormal.
\<close>

theorem normal_mode_round_trip:
  assumes "k < P" and "l < P" and "m < 3 * n"
  shows "nmpimd_transform P
           (map (\<lambda>j. nmpimd_transform P src (mat_row P (M_x2xp (nmpimd_init P A0 B0)) j) n) [0..<P])
           (mat_row P (M_xp2x (nmpimd_init P A0 B0)) k) n ! m
         = src ! k ! m
       \<and> (\<Sum>j<P. M_x2xp (nmpimd_init P A0 B0) k j * M_x2xp (nmpimd_init P A0 B0) l j)
         = (if k = l then 1 else 0)"
proof -
  let ?N = "nmpimd_init P A0 B0"
  let ?Y = "map (\<lambda>j. nmpimd_transform P src (mat_row P (M_x2xp ?N) j) n) [0..<P]"
  have rows: "(\<Sum>j<P. M_x2xp ?N k j * M_x2xp ?N l j) = (if k = l then 1 else 0)"
  proof -
    have "(\<Sum>j<P. M_x2xp ?N k j * M_x2xp ?N l j)
          = (\<Sum>j<P. spec_forward P k j * spec_forward P l j)"
      by (rule sum.cong [OF refl]) (simp add: M_x2xp_cell assms(1,2))
    then show ?thesis by (simp only: spec_forward_rows_orthonormal [OF assms(1,2)])
  qed
  have fwd: "?Y ! j ! m = (\<Sum>i<P. src ! i ! m * spec_forward P j i)" if "j < P" for j
  proof -
    have "?Y ! j ! m = (\<Sum>i<P. src ! i ! m * mat_row P (M_x2xp ?N) j ! i)"
      using that by (simp add: nmpimd_transform_nth [OF assms(3)])
    also have "\<dots> = (\<Sum>i<P. src ! i ! m * spec_forward P j i)"
      by (rule sum.cong [OF refl]) (simp add: mat_row_nth M_x2xp_cell that)
    finally show ?thesis .
  qed
  have "nmpimd_transform P ?Y (mat_row P (M_xp2x ?N) k) n ! m
        = (\<Sum>j<P. ?Y ! j ! m * mat_row P (M_xp2x ?N) k ! j)"
    by (rule nmpimd_transform_nth [OF assms(3)])
  also have "\<dots> = (\<Sum>j<P. (\<Sum>i<P. src ! i ! m * spec_forward P j i) * spec_forward P j k)"
    by (rule sum.cong [OF refl])
      (simp add: fwd mat_row_nth M_xp2x_cell M_x2xp_cell assms(1) del: nth_map)
  also have "\<dots> = src ! k ! m"
    by (rule orthonormal_round_trip [OF _ assms(1)])
      (rule spec_forward_columns_orthonormal [OF _ assms(1)])
  finally show ?thesis using rows by blast
qed

theorem normal_mode_round_trip_witness:
  "(0::nat) < 2 \<and> (1::nat) < 2 \<and> (0::nat) < 3 * 1
   \<and> nmpimd_transform 2
        (map (\<lambda>j. nmpimd_transform 2 [[1, 2, 3], [4, 5, 6]]
                     (mat_row 2 (M_x2xp (nmpimd_init 2 zero_matrix zero_matrix)) j) 1) [0..<2])
        (mat_row 2 (M_xp2x (nmpimd_init 2 zero_matrix zero_matrix)) 0) 1 ! 0
       = [[1, 2, 3], [4, 5, 6]] ! 0 ! 0
   \<and> (\<Sum>j<2. M_x2xp (nmpimd_init 2 zero_matrix zero_matrix) 0 j
                * M_x2xp (nmpimd_init 2 zero_matrix zero_matrix) 1 j)
       = (if (0::nat) = 1 then 1 else 0)"
proof -
  have h1: "(0::nat) < 2" by simp
  have h2: "(1::nat) < 2" by simp
  have h3: "(0::nat) < 3 * 1" by simp
  show ?thesis
    using normal_mode_round_trip [OF h1 h2 h3, of "[[1, 2, 3], [4, 5, 6]]" zero_matrix zero_matrix]
      h1 h2 h3
    by blast
qed

theorem nmpimd_init_closed_form_witness:
  "(1::nat) < 4 \<and> (2::nat) < 4 \<and> (3::nat) < 4
   \<and> length (lam (nmpimd_init 4 zero_matrix zero_matrix)) = 4
   \<and> lam (nmpimd_init 4 zero_matrix zero_matrix) ! 1 = 4 * (sin (real 1 * pi / real 4))\<^sup>2
   \<and> lam (nmpimd_init 4 zero_matrix zero_matrix) ! 0 = 0
   \<and> lam (nmpimd_init 4 zero_matrix zero_matrix) ! (4 div 2) = 4
   \<and> M_x2xp (nmpimd_init 4 zero_matrix zero_matrix) 0 1 = 1 / sqrt (real 4)
   \<and> M_x2xp (nmpimd_init 4 zero_matrix zero_matrix) 1 1
       = sqrt (2 / real 4) * cos (2 * pi * real 1 * real 1 / real 4)
   \<and> M_x2xp (nmpimd_init 4 zero_matrix zero_matrix) 2 1 = 1 / sqrt (real 4) * (- 1) ^ 1
   \<and> M_x2xp (nmpimd_init 4 zero_matrix zero_matrix) 3 1
       = sqrt (2 / real 4) * sin (2 * pi * real 3 * real 1 / real 4)
   \<and> M_xp2x (nmpimd_init 4 zero_matrix zero_matrix) 1 1
       = M_x2xp (nmpimd_init 4 zero_matrix zero_matrix) 1 1"
proof -
  have h1: "(1::nat) < 4" by simp
  have h2: "(2::nat) < 4" by simp
  have h3: "(3::nat) < 4" by simp
  have e: "even (4::nat)" by simp
  have c1: "1 \<le> (1::nat) \<and> 2 * (1::nat) < 4" by simp
  have c2: "2 * (2::nat) = 4" by simp
  have c3: "(4::nat) < 2 * 3" by simp
  show ?thesis
    using nmpimd_init_closed_form [OF h1 h1, of zero_matrix zero_matrix]
      nmpimd_init_closed_form [OF h2 h1, of zero_matrix zero_matrix]
      nmpimd_init_closed_form [OF h3 h1, of zero_matrix zero_matrix]
      h1 h2 h3 e c1 c2 c3
    by blast
qed

end
